theory Spec2Isabelle
  imports Main "HOL-Library.AList" "HOL-Library.Log_Nat" "HOL-Library.Monad_Syntax"
begin

section \<open>Python values, calendar dates and float arithmetic\<close>

text \<open>
  The handlers of \<^verbatim>\<open>server.py\<close> work on Python dictionaries read from and written to
  MongoDB collections. A dictionary is an association list (Python dictionaries keep the
  insertion order), the values are the Python values the handlers meet.
\<close>

datatype date = Date (year: int) (month: int) (day: int)

text \<open>
  A Python \<^verbatim>\<open>float\<close> is an IEEE 754 double: a finite number, an infinity or NaN. A finite
  double is the rational number it denotes; the sign of a zero is not represented.
\<close>

datatype double = Finite rat | PosInf | NegInf | NaN

datatype pyval =
    PNone
  | PBool bool
  | PInt int
  | PFloat double
  | PStr string
  | PDate date
  | PDatetime int
  | PObjectId nat
  | PList "pyval list"
  | PDict "(string \<times> pyval) list"

type_synonym doc = "(string \<times> pyval) list"

text \<open>
  \<^verbatim>\<open>datetime.date\<close>: \<^verbatim>\<open>(check_out - check_in).days\<close> is the difference of the proleptic
  Gregorian ordinals, computed as CPython's \<^verbatim>\<open>_ymd2ord\<close> does.
\<close>

definition is_leap :: "int \<Rightarrow> bool" where
  "is_leap y = (y mod 4 = 0 \<and> (y mod 100 \<noteq> 0 \<or> y mod 400 = 0))"

definition DAYS_IN_MONTH :: "int list" where
  "DAYS_IN_MONTH = [31, 28, 31, 30, 31, 30, 31, 31, 30, 31, 30, 31]"

definition days_before_year :: "int \<Rightarrow> int" where
  "days_before_year y = (y - 1) * 365 + (y - 1) div 4 - (y - 1) div 100 + (y - 1) div 400"

definition days_before_month :: "int \<Rightarrow> int \<Rightarrow> int" where
  "days_before_month y m =
     sum_list (take (nat (m - 1)) DAYS_IN_MONTH) + (if 2 < m \<and> is_leap y then 1 else 0)"

definition toordinal :: "date \<Rightarrow> int" where
  "toordinal d = days_before_year (year d) + days_before_month (year d) (month d) + day d"

definition days_between :: "date \<Rightarrow> date \<Rightarrow> int" where
  \<comment> \<open>\<^verbatim>\<open>(check_out - check_in).days\<close>\<close>
  "days_between check_out check_in = toordinal check_out - toordinal check_in"

text \<open>
  The constructor of \<^verbatim>\<open>datetime.date\<close>, which pydantic calls for the \<^verbatim>\<open>check_in\<close> and
  \<^verbatim>\<open>check_out\<close> of a request, accepts the years 1 to 9999, the months 1 to 12 and the days
  of that month (CPython's \<^verbatim>\<open>_check_date_fields\<close> and \<^verbatim>\<open>_days_in_month\<close>).
\<close>

definition days_in_month :: "int \<Rightarrow> int \<Rightarrow> int" where
  "days_in_month y m = (if m = 2 \<and> is_leap y then 29 else DAYS_IN_MONTH ! nat (m - 1))"

definition valid_date :: "date \<Rightarrow> bool" where
  "valid_date d =
     (1 \<le> year d \<and> year d \<le> 9999 \<and> 1 \<le> month d \<and> month d \<le> 12
      \<and> 1 \<le> day d \<and> day d \<le> days_in_month (year d) (month d))"

text \<open>\<^verbatim>\<open>date.isoformat()\<close>: \<^verbatim>\<open>"%04d-%02d-%02d"\<close>, for the years 1 to 9999 that a date can have.\<close>

definition digit :: "int \<Rightarrow> char" where
  "digit n = ''0123456789'' ! nat (n mod 10)"

definition isoformat :: "date \<Rightarrow> string" where
  "isoformat d =
     [digit (year d div 1000), digit (year d div 100), digit (year d div 10), digit (year d)]
     @ ''-'' @ [digit (month d div 10), digit (month d)]
     @ ''-'' @ [digit (day d div 10), digit (day d)]"

text \<open>
  The finite doubles are the numbers \<open>m * 2 ^ e\<close> with an integer \<open>m\<close> of less than 53
  bits and \<open>e\<close> from -1074 to 971: the largest is \<open>2 ^ 1024 - 2 ^ 971\<close>, the smallest
  positive one \<open>2 ^ -1074\<close>.
\<close>

definition pow2 :: "int \<Rightarrow> rat" where
  "pow2 k = 2 powi k"

definition is_double :: "rat \<Rightarrow> bool" where
  "is_double x = (\<exists>m e. x = of_int m * 2 powi e \<and> \<bar>m\<bar> < 2 ^ 53 \<and> - 1074 \<le> e \<and> e \<le> 971)"

text \<open>
  An arithmetic operation on finite doubles returns the exact result rounded to the nearest
  double, ties to even (the default rounding of IEEE 754): the result is rounded to 53
  significant bits where its exponent is at least -1022 and to a multiple of \<open>2 ^ -1074\<close>
  below (the subnormal numbers), and a result that rounds to \<open>2 ^ 1024\<close> or more is an
  infinity.
\<close>

definition ilog2 :: "rat \<Rightarrow> int" where
  \<comment> \<open>for \<open>0 < x\<close>: the \<open>e\<close> with \<open>pow2 e \<le> x < pow2 (e + 1)\<close>\<close>
  "ilog2 x =
     (let (a, b) = quotient_of x; k = bitlen a - bitlen b
      in if pow2 k \<le> x then k else k - 1)"

definition round_half_even :: "rat \<Rightarrow> int" where
  "round_half_even m =
     (let f = \<lfloor>m\<rfloor>; d = m - of_int f
      in if d < 1 / 2 then f else if 1 / 2 < d then f + 1 else if even f then f else f + 1)"

definition round_to_double :: "rat \<Rightarrow> double" where
  "round_to_double x =
     (if x = 0 then Finite 0
      else let e = max (ilog2 \<bar>x\<bar>) (- 1022);
               u = pow2 (e - 52);
               r = of_int (round_half_even (\<bar>x\<bar> / u)) * u
           in if pow2 1024 \<le> r then (if 0 < x then PosInf else NegInf)
              else Finite (sgn x * r))"

definition float_of_int :: "int \<Rightarrow> double" where
  \<comment> \<open>\<^verbatim>\<open>float(n)\<close>: the nearest double. Python raises \<^verbatim>\<open>OverflowError\<close> for an integer beyond
    the doubles; the difference of the ordinals of two dates is below \<open>2 ^ 22\<close>.\<close>
  "float_of_int n = round_to_double (of_int n)"

fun float_sign :: "double \<Rightarrow> int" where
  "float_sign (Finite x) = (if x = 0 then 0 else if 0 < x then 1 else - 1)"
| "float_sign PosInf = 1"
| "float_sign NegInf = - 1"
| "float_sign NaN = 0"

fun float_mul :: "double \<Rightarrow> double \<Rightarrow> double" where
  "float_mul (Finite x) (Finite y) = round_to_double (x * y)"
| "float_mul NaN b = NaN"
| "float_mul a NaN = NaN"
| "float_mul a b =
     (if float_sign a * float_sign b = 0 then NaN
      else if 0 < float_sign a * float_sign b then PosInf else NegInf)"

text \<open>
  \<^verbatim>\<open>days * price\<close> with an \<^verbatim>\<open>int\<close> on the left: the product of two integers is exact, an
  integer is converted to a float before it is multiplied with one, \<^verbatim>\<open>bool\<close> is a subclass of
  \<^verbatim>\<open>int\<close>. For a right operand that is no number the model reports the \<^verbatim>\<open>TypeError\<close> of
  \<^verbatim>\<open>int * None\<close>, \<^verbatim>\<open>int * dict\<close>; the repetition of a string or a list is not modelled.
\<close>

fun int_mul :: "int \<Rightarrow> pyval \<Rightarrow> pyval option" where
  "int_mul n (PFloat x) = Some (PFloat (float_mul (float_of_int n) x))"
| "int_mul n (PInt k) = Some (PInt (n * k))"
| "int_mul n (PBool b) = Some (PInt (n * (if b then 1 else 0)))"
| "int_mul n _ = None"

section \<open>The pydantic models\<close>

record User =
  u_id :: string
  u_email :: string
  u_first_name :: string
  u_last_name :: string
  u_password_hash :: string
  u_created_at :: int

record Property =
  p_id :: string
  p_title :: string
  p_description :: string
  p_property_type :: string
  p_city :: string
  p_state :: string
  p_address :: string
  p_price_per_night :: rat
  p_max_guests :: int
  p_bedrooms :: int
  p_bathrooms :: int
  p_amenities :: "string list"
  p_images :: "string list"
  p_available :: bool
  p_created_at :: int

record Booking =
  b_id :: string
  b_user_id :: string
  b_property_id :: string
  b_check_in :: date
  b_check_out :: date
  b_guests :: int
  b_total_price :: double
  b_status :: string
  b_created_at :: int

record BookingCreate =
  bc_property_id :: string
  bc_check_in :: date
  bc_check_out :: date
  bc_guests :: int

text \<open>\<^verbatim>\<open>.dict()\<close>: the fields in the order of their declaration.\<close>

definition Property_dict :: "Property \<Rightarrow> doc" where
  "Property_dict p =
     [(''id'', PStr (p_id p)),
      (''title'', PStr (p_title p)),
      (''description'', PStr (p_description p)),
      (''property_type'', PStr (p_property_type p)),
      (''city'', PStr (p_city p)),
      (''state'', PStr (p_state p)),
      (''address'', PStr (p_address p)),
      (''price_per_night'', PFloat (Finite (p_price_per_night p))),
      (''max_guests'', PInt (p_max_guests p)),
      (''bedrooms'', PInt (p_bedrooms p)),
      (''bathrooms'', PInt (p_bathrooms p)),
      (''amenities'', PList (map PStr (p_amenities p))),
      (''images'', PList (map PStr (p_images p))),
      (''available'', PBool (p_available p)),
      (''created_at'', PDatetime (p_created_at p))]"

definition Booking_dict :: "Booking \<Rightarrow> doc" where
  "Booking_dict b =
     [(''id'', PStr (b_id b)),
      (''user_id'', PStr (b_user_id b)),
      (''property_id'', PStr (b_property_id b)),
      (''check_in'', PDate (b_check_in b)),
      (''check_out'', PDate (b_check_out b)),
      (''guests'', PInt (b_guests b)),
      (''total_price'', PFloat (b_total_price b)),
      (''status'', PStr (b_status b)),
      (''created_at'', PDatetime (b_created_at b))]"

text \<open>
  \<^verbatim>\<open>Property(**prop)\<close>: every field is read from the dictionary and validated, any other
  key (MongoDB's \<^verbatim>\<open>_id\<close>) is ignored. The documents of the collection are written by
  \<^verbatim>\<open>Property(...).dict()\<close> only, and on those the validation is the one below; pydantic's
  coercions of other values (a number given as a string) and its defaults for a missing
  \<^verbatim>\<open>id\<close>, \<^verbatim>\<open>available\<close> or \<^verbatim>\<open>created_at\<close> are not modelled: such a document is reported as a
  validation error. The price of a listing is a finite double here, and so are the bounds of
  a search: a price that is an infinity or NaN is not a valid price of the model.
\<close>

definition get_str :: "doc \<Rightarrow> string \<Rightarrow> string option" where
  "get_str d k = (case map_of d k of Some (PStr s) \<Rightarrow> Some s | _ \<Rightarrow> None)"

definition get_int :: "doc \<Rightarrow> string \<Rightarrow> int option" where
  "get_int d k = (case map_of d k of Some (PInt n) \<Rightarrow> Some n | _ \<Rightarrow> None)"

definition get_float :: "doc \<Rightarrow> string \<Rightarrow> rat option" where
  "get_float d k = (case map_of d k of Some (PFloat (Finite x)) \<Rightarrow> Some x | _ \<Rightarrow> None)"

definition get_bool :: "doc \<Rightarrow> string \<Rightarrow> bool option" where
  "get_bool d k = (case map_of d k of Some (PBool b) \<Rightarrow> Some b | _ \<Rightarrow> None)"

definition get_datetime :: "doc \<Rightarrow> string \<Rightarrow> int option" where
  "get_datetime d k = (case map_of d k of Some (PDatetime t) \<Rightarrow> Some t | _ \<Rightarrow> None)"

definition str_of :: "pyval \<Rightarrow> string option" where
  "str_of v = (case v of PStr s \<Rightarrow> Some s | _ \<Rightarrow> None)"

definition get_str_list :: "doc \<Rightarrow> string \<Rightarrow> string list option" where
  "get_str_list d k = (case map_of d k of Some (PList vs) \<Rightarrow> those (map str_of vs) | _ \<Rightarrow> None)"

definition Property_parse :: "doc \<Rightarrow> Property option" where
  "Property_parse d = do {
     i \<leftarrow> get_str d ''id'';
     title \<leftarrow> get_str d ''title'';
     description \<leftarrow> get_str d ''description'';
     property_type \<leftarrow> get_str d ''property_type'';
     city \<leftarrow> get_str d ''city'';
     state \<leftarrow> get_str d ''state'';
     address \<leftarrow> get_str d ''address'';
     price_per_night \<leftarrow> get_float d ''price_per_night'';
     max_guests \<leftarrow> get_int d ''max_guests'';
     bedrooms \<leftarrow> get_int d ''bedrooms'';
     bathrooms \<leftarrow> get_int d ''bathrooms'';
     amenities \<leftarrow> get_str_list d ''amenities'';
     images \<leftarrow> get_str_list d ''images'';
     available \<leftarrow> get_bool d ''available'';
     created_at \<leftarrow> get_datetime d ''created_at'';
     Some \<lparr>p_id = i, p_title = title, p_description = description,
       p_property_type = property_type, p_city = city, p_state = state, p_address = address,
       p_price_per_night = price_per_night, p_max_guests = max_guests, p_bedrooms = bedrooms,
       p_bathrooms = bathrooms, p_amenities = amenities, p_images = images,
       p_available = available, p_created_at = created_at\<rparr>
   }"

section \<open>The document store\<close>

text \<open>
  A collection is the list of its documents in the store's order. A filter is a dictionary
  from field names to conditions: a dictionary of operators (\<^verbatim>\<open>$gte\<close>, \<^verbatim>\<open>$lte\<close>,
  \<^verbatim>\<open>$regex\<close> with its \<^verbatim>\<open>$options\<close>: the four that \<^verbatim>\<open>server.py\<close> writes), or a value that the
  field has to equal (\<^verbatim>\<open>None\<close> also matches a document without the field). All conditions
  of a filter have to hold. The regular expression engine of the store is a parameter
  \<open>rx pattern options subject\<close>. A failure of the store itself (no connection, a pattern
  the engine rejects) is outside the model.
\<close>

type_synonym regex = "string \<Rightarrow> string \<Rightarrow> string \<Rightarrow> bool"

definition number_of :: "pyval \<Rightarrow> rat option" where
  "number_of v =
     (case v of PInt n \<Rightarrow> Some (of_int n) | PFloat (Finite x) \<Rightarrow> Some x | _ \<Rightarrow> None)"

definition regex_options :: "doc \<Rightarrow> string" where
  "regex_options ops = (case map_of ops ''$options'' of Some (PStr s) \<Rightarrow> s | _ \<Rightarrow> [])"

definition op_holds :: "regex \<Rightarrow> doc \<Rightarrow> pyval \<Rightarrow> string \<times> pyval \<Rightarrow> bool" where
  "op_holds rx ops v ob =
     (if fst ob = ''$gte'' then
        (case (number_of v, number_of (snd ob)) of (Some x, Some y) \<Rightarrow> y \<le> x | _ \<Rightarrow> False)
      else if fst ob = ''$lte'' then
        (case (number_of v, number_of (snd ob)) of (Some x, Some y) \<Rightarrow> x \<le> y | _ \<Rightarrow> False)
      else if fst ob = ''$regex'' then
        (case (v, snd ob) of (PStr s, PStr pat) \<Rightarrow> rx pat (regex_options ops) s | _ \<Rightarrow> False)
      else if fst ob = ''$options'' then True
      else False)"

definition cond_holds :: "regex \<Rightarrow> pyval \<Rightarrow> pyval option \<Rightarrow> bool" where
  "cond_holds rx c v =
     (case c of
        PDict ops \<Rightarrow> (case v of None \<Rightarrow> False | Some x \<Rightarrow> list_all (op_holds rx ops x) ops)
      | PNone \<Rightarrow> v = None \<or> v = Some PNone
      | _ \<Rightarrow> v = Some c)"

definition matches :: "regex \<Rightarrow> doc \<Rightarrow> doc \<Rightarrow> bool" where
  "matches rx flt d = list_all (\<lambda>kc. cond_holds rx (snd kc) (map_of d (fst kc))) flt"

definition find :: "regex \<Rightarrow> doc \<Rightarrow> doc list \<Rightarrow> doc list" where
  \<comment> \<open>the cursor of \<^verbatim>\<open>collection.find(filter)\<close>; \<^verbatim>\<open>find()\<close> is the empty filter\<close>
  "find rx flt coll = filter (matches rx flt) coll"

definition to_list :: "nat option \<Rightarrow> doc list \<Rightarrow> doc list" where
  \<comment> \<open>\<^verbatim>\<open>cursor.to_list(length)\<close>, \<^verbatim>\<open>length=None\<close> for all\<close>
  "to_list n cur = (case n of None \<Rightarrow> cur | Some k \<Rightarrow> take k cur)"

definition find_one :: "regex \<Rightarrow> doc \<Rightarrow> doc list \<Rightarrow> doc option" where
  "find_one rx flt coll = (case find rx flt coll of [] \<Rightarrow> None | d # _ \<Rightarrow> Some d)"

definition insert_one :: "nat \<Rightarrow> doc \<Rightarrow> doc list \<Rightarrow> doc list" where
  \<comment> \<open>a document without \<^verbatim>\<open>_id\<close> gets the \<^verbatim>\<open>ObjectId\<close> the driver generates\<close>
  "insert_one oid d coll =
     coll @ [if map_of d ''_id'' = None then (''_id'', PObjectId oid) # d else d]"

fun delete_one :: "regex \<Rightarrow> doc \<Rightarrow> doc list \<Rightarrow> nat \<times> doc list" where
  \<comment> \<open>removes the first match; the first component is \<^verbatim>\<open>deleted_count\<close>\<close>
  "delete_one rx flt [] = (0, [])"
| "delete_one rx flt (d # coll) =
     (if matches rx flt d then (1, coll)
      else (fst (delete_one rx flt coll), d # snd (delete_one rx flt coll)))"

record db =
  users :: "doc list"
  properties :: "doc list"
  bookings :: "doc list"

text \<open>
  What a handler takes from its environment when it creates a record: the \<^verbatim>\<open>uuid.uuid4()\<close>
  and the \<^verbatim>\<open>datetime.utcnow()\<close> of the model's default factories, and the \<^verbatim>\<open>ObjectId\<close> of
  the insertion.
\<close>

record Env =
  uuid4 :: string
  utcnow :: int
  ObjectId :: nat

datatype error = HTTPException nat string | KeyError string | TypeError | ValidationError

definition ADMIN_EMAIL :: string where
  "ADMIN_EMAIL = ''admin@wunderwohn.com''"

section \<open>The handlers\<close>

subsection \<open>\<^verbatim>\<open>get_properties\<close>\<close>

text \<open>
  The handler starts from \<^verbatim>\<open>{"available": True}\<close> and has one \<^verbatim>\<open>if\<close> statement for each
  query parameter, in the order city, \<^verbatim>\<open>min_price\<close>, \<^verbatim>\<open>max_price\<close>, \<^verbatim>\<open>min_guests\<close>,
  \<^verbatim>\<open>property_type\<close>; each is a function on the filter dictionary here. The test \<^verbatim>\<open>if city:\<close>
  is Python's truth value: a parameter that is \<^verbatim>\<open>None\<close>, the empty string or 0 fails it.
\<close>

definition setitem2 :: "string \<Rightarrow> string \<Rightarrow> pyval \<Rightarrow> doc \<Rightarrow> doc option" where
  \<comment> \<open>\<^verbatim>\<open>d[k1][k2] = v\<close>; \<open>None\<close> when \<^verbatim>\<open>d[k1]\<close> is missing or no dictionary\<close>
  "setitem2 k1 k2 v d =
     (case map_of d k1 of
        Some (PDict inner) \<Rightarrow> Some (AList.update k1 (PDict (AList.update k2 v inner)) d)
      | _ \<Rightarrow> None)"

definition filter_city :: "string option \<Rightarrow> doc \<Rightarrow> doc" where
  "filter_city city filter_dict =
     (case city of
        None \<Rightarrow> filter_dict
      | Some c \<Rightarrow>
          if c \<noteq> [] then
            AList.update ''city'' (PDict [(''$regex'', PStr c), (''$options'', PStr ''i'')]) filter_dict
          else filter_dict)"

definition filter_min_price :: "rat option \<Rightarrow> doc \<Rightarrow> doc" where
  "filter_min_price min_price filter_dict =
     (case min_price of
        None \<Rightarrow> filter_dict
      | Some lo \<Rightarrow>
          if lo \<noteq> 0 then AList.update ''price_per_night'' (PDict [(''$gte'', PFloat (Finite lo))]) filter_dict
          else filter_dict)"

definition filter_max_price :: "rat option \<Rightarrow> doc \<Rightarrow> doc option" where
  "filter_max_price max_price filter_dict =
     (case max_price of
        None \<Rightarrow> Some filter_dict
      | Some hi \<Rightarrow>
          if hi \<noteq> 0 then
            (if map_of filter_dict ''price_per_night'' \<noteq> None
             then setitem2 ''price_per_night'' ''$lte'' (PFloat (Finite hi)) filter_dict
             else Some (AList.update ''price_per_night'' (PDict [(''$lte'', PFloat (Finite hi))]) filter_dict))
          else Some filter_dict)"

definition filter_min_guests :: "int option \<Rightarrow> doc \<Rightarrow> doc" where
  "filter_min_guests min_guests filter_dict =
     (case min_guests of
        None \<Rightarrow> filter_dict
      | Some g \<Rightarrow>
          if g \<noteq> 0 then AList.update ''max_guests'' (PDict [(''$gte'', PInt g)]) filter_dict
          else filter_dict)"

definition filter_property_type :: "string option \<Rightarrow> doc \<Rightarrow> doc" where
  "filter_property_type property_type filter_dict =
     (case property_type of
        None \<Rightarrow> filter_dict
      | Some t \<Rightarrow>
          if t \<noteq> [] then
            AList.update ''property_type''
              (PDict [(''$regex'', PStr t), (''$options'', PStr ''i'')]) filter_dict
          else filter_dict)"

definition get_properties ::
  "regex \<Rightarrow> db \<Rightarrow> string option \<Rightarrow> rat option \<Rightarrow> rat option \<Rightarrow> int option \<Rightarrow> string option
     \<Rightarrow> error + Property list" where
  "get_properties rx s city min_price max_price min_guests property_type =
     (case filter_max_price max_price
             (filter_min_price min_price (filter_city city [(''available'', PBool True)])) of
        None \<Rightarrow> Inl TypeError
      | Some filter3 \<Rightarrow>
          (let filter_dict = filter_property_type property_type (filter_min_guests min_guests filter3);
               props = to_list (Some 100) (find rx filter_dict (properties s))
           in case those (map Property_parse props) of
                None \<Rightarrow> Inl ValidationError
              | Some ps \<Rightarrow> Inr ps))"

subsection \<open>\<^verbatim>\<open>create_booking\<close>\<close>

definition float_validate :: "pyval \<Rightarrow> double option" where
  \<comment> \<open>the validation of a \<^verbatim>\<open>float\<close> field\<close>
  "float_validate v =
     (case v of
        PFloat x \<Rightarrow> Some x
      | PInt n \<Rightarrow> Some (float_of_int n)
      | PBool b \<Rightarrow> Some (Finite (if b then 1 else 0))
      | _ \<Rightarrow> None)"

definition create_booking ::
  "regex \<Rightarrow> Env \<Rightarrow> db \<Rightarrow> BookingCreate \<Rightarrow> User \<Rightarrow> (error + doc) \<times> db" where
  "create_booking rx env s booking_data current_user =
     (case find_one rx [(''id'', PStr (bc_property_id booking_data))] (properties s) of
        None \<Rightarrow> (Inl (HTTPException 404 ''Property not found''), s)
      | Some property_doc \<Rightarrow>
          if property_doc = [] then (Inl (HTTPException 404 ''Property not found''), s)
          else
            (let days = days_between (bc_check_out booking_data) (bc_check_in booking_data)
             in if days \<le> 0 then (Inl (HTTPException 400 ''Invalid date range''), s)
                else
                  (case map_of property_doc ''price_per_night'' of
                     None \<Rightarrow> (Inl (KeyError ''price_per_night''), s)
                   | Some price \<Rightarrow>
                       (case int_mul days price of
                          None \<Rightarrow> (Inl TypeError, s)
                        | Some total_price \<Rightarrow>
                            (case float_validate total_price of
                               None \<Rightarrow> (Inl ValidationError, s)
                             | Some tp \<Rightarrow>
                                 (let booking =
                                        \<lparr>b_id = uuid4 env,
                                         b_user_id = u_id current_user,
                                         b_property_id = bc_property_id booking_data,
                                         b_check_in = bc_check_in booking_data,
                                         b_check_out = bc_check_out booking_data,
                                         b_guests = bc_guests booking_data,
                                         b_total_price = tp,
                                         b_status = ''confirmed'',
                                         b_created_at = utcnow env\<rparr>;
                                      booking_dict =
                                        AList.update ''check_out''
                                          (PStr (isoformat (b_check_out booking)))
                                          (AList.update ''check_in''
                                             (PStr (isoformat (b_check_in booking)))
                                             (Booking_dict booking))
                                  in (Inr [(''success'', PBool True),
                                           (''booking_id'', PStr (b_id booking)),
                                           (''total_price'', total_price)],
                                      s\<lparr>bookings :=
                                          insert_one (ObjectId env) booking_dict (bookings s)\<rparr>)))))))"

subsection \<open>\<^verbatim>\<open>get_user_bookings\<close>\<close>

definition strip_id :: "doc \<Rightarrow> doc" where
  \<comment> \<open>\<^verbatim>\<open>if "_id" in d: del d["_id"]\<close>\<close>
  "strip_id d = (if map_of d ''_id'' \<noteq> None then AList.delete ''_id'' d else d)"

definition join_property :: "regex \<Rightarrow> doc list \<Rightarrow> pyval \<Rightarrow> pyval" where
  \<comment> \<open>the \<^verbatim>\<open>property_doc\<close> of the loop body, \<^verbatim>\<open>None\<close> when \<^verbatim>\<open>find_one\<close> finds nothing\<close>
  "join_property rx props pid =
     (case find_one rx [(''id'', pid)] props of
        None \<Rightarrow> PNone
      | Some property_doc \<Rightarrow>
          if property_doc \<noteq> [] then PDict (strip_id property_doc) else PDict property_doc)"

definition booking_with_property :: "regex \<Rightarrow> doc list \<Rightarrow> doc \<Rightarrow> error + doc" where
  \<comment> \<open>the body of the loop; \<^verbatim>\<open>booking["property_id"]\<close> raises when the key is missing\<close>
  "booking_with_property rx props booking =
     (case map_of (strip_id booking) ''property_id'' of
        None \<Rightarrow> Inl (KeyError ''property_id'')
      | Some pid \<Rightarrow>
          Inr (AList.update ''property'' (join_property rx props pid) (strip_id booking)))"

fun get_user_bookings_loop ::
  "regex \<Rightarrow> doc list \<Rightarrow> doc list \<Rightarrow> doc list \<Rightarrow> error + doc list" where
  "get_user_bookings_loop rx props [] result = Inr result"
| "get_user_bookings_loop rx props (booking # rest) result =
     (case booking_with_property rx props booking of
        Inl e \<Rightarrow> Inl e
      | Inr r \<Rightarrow> get_user_bookings_loop rx props rest (result @ [r]))"

definition found_bookings :: "regex \<Rightarrow> db \<Rightarrow> User \<Rightarrow> doc list" where
  \<comment> \<open>the \<^verbatim>\<open>bookings\<close> that the handler reads: of all bookings for the administrator, of
    the caller's own otherwise\<close>
  "found_bookings rx s current_user =
     (if u_email current_user = ADMIN_EMAIL
      then to_list (Some 1000) (find rx [] (bookings s))
      else to_list (Some 100) (find rx [(''user_id'', PStr (u_id current_user))] (bookings s)))"

definition get_user_bookings :: "regex \<Rightarrow> db \<Rightarrow> User \<Rightarrow> error + doc list" where
  "get_user_bookings rx s current_user =
     get_user_bookings_loop rx (properties s) (found_bookings rx s current_user) []"

subsection \<open>\<^verbatim>\<open>delete_booking\<close>\<close>

definition delete_booking :: "regex \<Rightarrow> db \<Rightarrow> string \<Rightarrow> User \<Rightarrow> (error + doc) \<times> db" where
  "delete_booking rx s booking_id current_user =
     (case find_one rx [(''id'', PStr booking_id)] (bookings s) of
        None \<Rightarrow> (Inl (HTTPException 404 ''Booking not found''), s)
      | Some booking \<Rightarrow>
          if booking = [] then (Inl (HTTPException 404 ''Booking not found''), s)
          else
            (case map_of booking ''user_id'' of
               None \<Rightarrow> (Inl (KeyError ''user_id''), s)
             | Some owner \<Rightarrow>
                 if owner \<noteq> PStr (u_id current_user) \<and> u_email current_user \<noteq> ADMIN_EMAIL
                 then (Inl (HTTPException 403 ''Not authorized to delete this booking''), s)
                 else
                   (let result = delete_one rx [(''id'', PStr booking_id)] (bookings s);
                        s' = s\<lparr>bookings := snd result\<rparr>
                    in if fst result = 0 then (Inl (HTTPException 404 ''Booking not found''), s')
                       else (Inr [(''success'', PBool True),
                                  (''message'', PStr ''Booking deleted successfully'')], s'))))"

section \<open>Example data\<close>

text \<open>
  A small store for the concrete instances below: four of the sample properties of
  \<^verbatim>\<open>initialize_sample_data\<close>, two users and the administrator, one booking of a listed
  property and one of a property that is no longer in the store. The example engine matches
  a pattern against the subject equal to it.
\<close>

definition example_rx :: regex where
  "example_rx pat opts subject = (pat = subject)"

definition sample_property :: "string \<Rightarrow> string \<Rightarrow> string \<Rightarrow> string \<Rightarrow> rat \<Rightarrow> int \<Rightarrow> Property" where
  "sample_property i title kind city price guests =
     \<lparr>p_id = i, p_title = title, p_description = ''Sample listing'',
      p_property_type = kind, p_city = city, p_state = city, p_address = city,
      p_price_per_night = price, p_max_guests = guests, p_bedrooms = 2, p_bathrooms = 1,
      p_amenities = [''WiFi'', ''Kitchen''], p_images = [], p_available = True,
      p_created_at = 0\<rparr>"

definition berlin :: Property where
  "berlin = sample_property ''p-berlin'' ''Charming Apartment in Berlin Mitte'' ''apartment''
     ''Berlin'' 120 4"

definition munich :: Property where
  "munich = sample_property ''p-munich'' ''Historic House in Munich Old Town'' ''house''
     ''Munich'' 200 6"

definition hamburg :: Property where
  "hamburg = sample_property ''p-hamburg'' ''Modern Riverside Apartment in Hamburg''
     ''apartment'' ''Hamburg'' 150 3"

definition frankfurt :: Property where
  "frankfurt = sample_property ''p-frankfurt''
     ''Luxury Apartment in Frankfurt Financial District'' ''apartment'' ''Frankfurt'' 250 4"

definition stored :: "nat \<Rightarrow> doc \<Rightarrow> doc" where
  "stored oid d = (''_id'', PObjectId oid) # d"

definition alice :: User where
  "alice = \<lparr>u_id = ''u-alice'', u_email = ''alice@example.com'', u_first_name = ''Alice'',
     u_last_name = ''A'', u_password_hash = ''x'', u_created_at = 0\<rparr>"

definition bob :: User where
  "bob = \<lparr>u_id = ''u-bob'', u_email = ''bob@example.com'', u_first_name = ''Bob'',
     u_last_name = ''B'', u_password_hash = ''y'', u_created_at = 0\<rparr>"

definition admin :: User where
  "admin = \<lparr>u_id = ''u-admin'', u_email = ''admin@wunderwohn.com'', u_first_name = ''Admin'',
     u_last_name = ''User'', u_password_hash = ''z'', u_created_at = 0\<rparr>"

definition sample_booking :: "string \<Rightarrow> string \<Rightarrow> string \<Rightarrow> doc" where
  "sample_booking i uid pid =
     [(''id'', PStr i), (''user_id'', PStr uid), (''property_id'', PStr pid),
      (''check_in'', PStr ''2025-06-01''), (''check_out'', PStr ''2025-06-04''),
      (''guests'', PInt 2), (''total_price'', PFloat (Finite 360)), (''status'', PStr ''confirmed''),
      (''created_at'', PDatetime 1)]"

definition example_db :: db where
  "example_db =
     \<lparr>users = [],
      properties =
        [stored 1 (Property_dict berlin), stored 2 (Property_dict munich),
         stored 3 (Property_dict hamburg), stored 4 (Property_dict frankfurt)],
      bookings =
        [stored 5 (sample_booking ''b-1'' ''u-alice'' ''p-berlin''),
         stored 6 (sample_booking ''b-2'' ''u-bob'' ''p-gone'')]\<rparr>"

definition example_env :: Env where
  "example_env = \<lparr>uuid4 = ''b-3'', utcnow = 2, ObjectId = 7\<rparr>"

definition example_request :: BookingCreate where
  "example_request =
     \<lparr>bc_property_id = ''p-berlin'', bc_check_in = Date 2025 6 1,
      bc_check_out = Date 2025 6 4, bc_guests = 2\<rparr>"

text \<open>
  A listing whose price is the double nearest to 0.1 (the Python float \<^verbatim>\<open>0.1\<close>), and a
  request for three nights of it.
\<close>

definition tenth :: rat where
  "tenth = 3602879701896397 / 2 ^ 55"

definition budget_room :: Property where
  "budget_room = sample_property ''p-budget'' ''Budget Room in Kiel'' ''room'' ''Kiel'' tenth 2"

definition budget_db :: db where
  "budget_db = example_db\<lparr>properties := [stored 9 (Property_dict budget_room)]\<rparr>"

definition budget_request :: BookingCreate where
  "budget_request = example_request\<lparr>bc_property_id := ''p-budget''\<rparr>"

text \<open>
  A store with 1001 bookings, numbered from 0 to 1000 (\<^verbatim>\<open>b0000\<close> to \<^verbatim>\<open>b1000\<close>), all of them
  bookings of the Berlin apartment by the same user; \<open>listed_booking n\<close> is the booking
  numbered \<open>n\<close> as a list of bookings shows it, without \<^verbatim>\<open>_id\<close> and with the property
  under \<^verbatim>\<open>property\<close>.
\<close>

definition booking_number :: "nat \<Rightarrow> string" where
  "booking_number n =
     [CHR ''b'', digit (int n div 1000), digit (int n div 100), digit (int n div 10),
      digit (int n)]"

definition numbered_booking :: "nat \<Rightarrow> doc" where
  "numbered_booking n = stored n (sample_booking (booking_number n) ''u-alice'' ''p-berlin'')"

definition listed_booking :: "nat \<Rightarrow> doc" where
  "listed_booking n =
     sample_booking (booking_number n) ''u-alice'' ''p-berlin''
     @ [(''property'', PDict (Property_dict berlin))]"

definition crowded_db :: db where
  "crowded_db = example_db\<lparr>bookings := map numbered_booking [0..<1001]\<rparr>"

section \<open>The search criteria\<close>

text \<open>
  What a search asks of a document, independently of how the handler builds its filter:
  the document is available, and every criterion that is given and is not a falsy value
  (0, the empty string) holds of it: the city and the type tag match the pattern without
  regard to case, the nightly price is at least \<^verbatim>\<open>min_price\<close> and at most \<^verbatim>\<open>max_price\<close>, the
  guest capacity is at least \<^verbatim>\<open>min_guests\<close>. A field that is missing, or is no string where a
  pattern is given, or no number where a bound is given, does not satisfy the criterion.
\<close>

definition criterion_regex :: "regex \<Rightarrow> string \<Rightarrow> pyval option \<Rightarrow> bool" where
  "criterion_regex rx pat v = (case v of Some (PStr subject) \<Rightarrow> rx pat ''i'' subject | _ \<Rightarrow> False)"

definition criterion_gte :: "pyval \<Rightarrow> pyval option \<Rightarrow> bool" where
  "criterion_gte bound v =
     (case v of
        Some x \<Rightarrow> (case (number_of x, number_of bound) of (Some a, Some b) \<Rightarrow> b \<le> a | _ \<Rightarrow> False)
      | None \<Rightarrow> False)"

definition criterion_lte :: "pyval \<Rightarrow> pyval option \<Rightarrow> bool" where
  "criterion_lte bound v =
     (case v of
        Some x \<Rightarrow> (case (number_of x, number_of bound) of (Some a, Some b) \<Rightarrow> a \<le> b | _ \<Rightarrow> False)
      | None \<Rightarrow> False)"

definition search_criteria ::
  "regex \<Rightarrow> string option \<Rightarrow> rat option \<Rightarrow> rat option \<Rightarrow> int option \<Rightarrow> string option
     \<Rightarrow> doc \<Rightarrow> bool" where
  "search_criteria rx city min_price max_price min_guests property_type d =
     (map_of d ''available'' = Some (PBool True)
      \<and> (case city of None \<Rightarrow> True
          | Some c \<Rightarrow> c = [] \<or> criterion_regex rx c (map_of d ''city''))
      \<and> (case min_price of None \<Rightarrow> True
          | Some lo \<Rightarrow> lo = 0 \<or> criterion_gte (PFloat (Finite lo)) (map_of d ''price_per_night''))
      \<and> (case max_price of None \<Rightarrow> True
          | Some hi \<Rightarrow> hi = 0 \<or> criterion_lte (PFloat (Finite hi)) (map_of d ''price_per_night''))
      \<and> (case min_guests of None \<Rightarrow> True
          | Some g \<Rightarrow> g = 0 \<or> criterion_gte (PInt g) (map_of d ''max_guests''))
      \<and> (case property_type of None \<Rightarrow> True
          | Some t \<Rightarrow> t = [] \<or> criterion_regex rx t (map_of d ''property_type'')))"

text \<open>The filter dictionary that \<open>get_properties\<close> arrives at, written out.\<close>

definition regex_cond :: "string \<Rightarrow> pyval" where
  "regex_cond pat = PDict [(''$regex'', PStr pat), (''$options'', PStr ''i'')]"

definition price_cond :: "rat option \<Rightarrow> rat option \<Rightarrow> doc" where
  "price_cond min_price max_price =
     (case min_price of None \<Rightarrow> [] | Some lo \<Rightarrow> if lo = 0 then [] else [(''$gte'', PFloat (Finite lo))])
     @ (case max_price of None \<Rightarrow> [] | Some hi \<Rightarrow> if hi = 0 then [] else [(''$lte'', PFloat (Finite hi))])"

definition search_filter ::
  "string option \<Rightarrow> rat option \<Rightarrow> rat option \<Rightarrow> int option \<Rightarrow> string option \<Rightarrow> doc" where
  "search_filter city min_price max_price min_guests property_type =
     [(''available'', PBool True)]
     @ (case city of None \<Rightarrow> [] | Some c \<Rightarrow> if c = [] then [] else [(''city'', regex_cond c)])
     @ (if price_cond min_price max_price = [] then []
        else [(''price_per_night'', PDict (price_cond min_price max_price))])
     @ (case min_guests of None \<Rightarrow> []
        | Some g \<Rightarrow> if g = 0 then [] else [(''max_guests'', PDict [(''$gte'', PInt g)])])
     @ (case property_type of None \<Rightarrow> []
        | Some t \<Rightarrow> if t = [] then [] else [(''property_type'', regex_cond t)])"

section \<open>Rounding to a double\<close>

text \<open>
  What \<open>round_to_double\<close> returns: a double it is given comes back unchanged; a finite
  result is a double and no double is nearer to the exact number; the result is an infinity
  exactly from \<open>2 ^ 1024 - 2 ^ 970\<close> on, the middle between the largest double and
  \<open>2 ^ 1024\<close>; it is never NaN.
\<close>

lemma pow2_pos [simp]: "0 < pow2 k"
  by (simp add: pow2_def)

lemma pow2_nonneg [simp]: "0 \<le> pow2 k"
  by (simp add: pow2_def)

lemma pow2_neq_0 [simp]: "pow2 k \<noteq> 0"
  by (simp add: pow2_def)

lemma pow2_add: "pow2 (m + n) = pow2 m * pow2 n"
  by (simp add: pow2_def power_int_add)

lemma pow2_diff: "pow2 (m - n) = pow2 m / pow2 n"
  by (simp add: pow2_def power_int_diff)

lemma pow2_mult: "k = m + n \<Longrightarrow> pow2 m * pow2 n = pow2 k"
  by (simp add: pow2_add)

lemma pow2_nat: "0 \<le> k \<Longrightarrow> pow2 k = of_int (2 ^ nat k)"
  by (simp add: pow2_def power_int_def)

lemma bitlen_pow2_bounds:
  assumes "0 < a"
  shows "pow2 (bitlen a - 1) \<le> of_int a" and "of_int a < pow2 (bitlen a)"
proof -
  from assms have "1 \<le> bitlen a"
    by (auto simp: bitlen_alt_def)
  moreover from bitlen_bounds [OF assms]
  have "(of_int (2 ^ nat (bitlen a - 1)) :: rat) \<le> of_int a"
    and "(of_int a :: rat) < of_int (2 ^ nat (bitlen a))"
    by (simp_all only: of_int_le_iff of_int_less_iff)
  ultimately show "pow2 (bitlen a - 1) \<le> of_int a"
    and "of_int a < pow2 (bitlen a)"
    by (simp_all add: pow2_def power_int_def)
qed

lemma ilog2_bounds:
  assumes "0 < x"
  shows "pow2 (ilog2 x) \<le> x" and "x < pow2 (ilog2 x + 1)"
proof -
  obtain a b where q: "quotient_of x = (a, b)" by (cases "quotient_of x")
  then have b: "0 < b" and x: "x = of_int a / of_int b"
    by (auto simp: quotient_of_denom_pos quotient_of_div)
  with assms have a: "0 < a"
    by (simp add: zero_less_divide_iff)
  define k where "k = bitlen a - bitlen b"
  note a1 = bitlen_pow2_bounds(1) [OF a] and a2 = bitlen_pow2_bounds(2) [OF a]
  note b1 = bitlen_pow2_bounds(1) [OF b] and b2 = bitlen_pow2_bounds(2) [OF b]
  have bpos: "(0::rat) < of_int b" using b by simp
  have il: "ilog2 x = (if pow2 k \<le> x then k else k - 1)"
    by (simp add: ilog2_def q k_def)
  have upper: "x < pow2 (k + 1)"
  proof -
    have "x < pow2 (bitlen a) / of_int b"
      unfolding x using a2 bpos by (simp add: divide_strict_right_mono)
    also have "\<dots> \<le> pow2 (bitlen a) / pow2 (bitlen b - 1)"
      using b1 by (simp add: frac_le)
    also have "\<dots> = pow2 (k + 1)"
      by (simp add: k_def pow2_diff [symmetric] algebra_simps)
    finally show ?thesis .
  qed
  have lower: "pow2 (k - 1) \<le> x"
  proof -
    have "pow2 (k - 1) = pow2 (bitlen a - 1) / pow2 (bitlen b)"
      by (simp add: k_def pow2_diff [symmetric] algebra_simps)
    also have "\<dots> \<le> of_int a / pow2 (bitlen b)"
      using a1 by (simp add: divide_right_mono)
    also have "\<dots> \<le> of_int a / of_int b"
      using b2 bpos a by (simp add: frac_le)
    finally show ?thesis unfolding x .
  qed
  show "pow2 (ilog2 x) \<le> x"
    using lower by (simp add: il)
  show "x < pow2 (ilog2 x + 1)"
    using upper by (simp add: il not_le)
qed

lemma pow2_le_iff: "pow2 m \<le> pow2 n \<longleftrightarrow> m \<le> n"
  unfolding pow2_def
  using power_int_strict_increasing [of n m "2::rat"] power_int_increasing [of m n "2::rat"]
  by (cases "m \<le> n") auto

lemma pow2_less_iff: "pow2 m < pow2 n \<longleftrightarrow> m < n"
  unfolding pow2_def
  using power_int_strict_increasing [of m n "2::rat"] power_int_increasing [of n m "2::rat"]
  by (cases "m < n") auto

lemma ilog2_unique:
  assumes "pow2 k \<le> x" and "x < pow2 (k + 1)"
  shows "ilog2 x = k"
proof -
  have pos: "0 < x"
    using assms(1) by (rule less_le_trans [rotated]) simp
  note b = ilog2_bounds [OF pos]
  have "pow2 k < pow2 (ilog2 x + 1)"
    using assms(1) b(2) by (rule le_less_trans)
  then have "k < ilog2 x + 1"
    by (simp add: pow2_less_iff)
  moreover have "pow2 (ilog2 x) < pow2 (k + 1)"
    using b(1) assms(2) by (rule le_less_trans)
  then have "ilog2 x < k + 1"
    by (simp add: pow2_less_iff)
  ultimately show ?thesis by simp
qed

lemma round_half_even_of_int [simp]: "round_half_even (of_int k) = k"
  by (simp add: round_half_even_def)

lemma round_half_even_frac:
  "\<bar>of_int (round_half_even t) - t\<bar> \<le> min (t - of_int \<lfloor>t\<rfloor>) (1 - (t - of_int \<lfloor>t\<rfloor>))"
proof -
  define f where "f = \<lfloor>t\<rfloor>"
  define d where "d = t - of_int f"
  have d: "0 \<le> d" "d < 1"
    unfolding d_def f_def by linarith+
  have t: "t = of_int f + d" by (simp add: d_def)
  have "\<bar>of_int (round_half_even t) - t\<bar> \<le> min d (1 - d)"
    unfolding round_half_even_def Let_def f_def [symmetric] d_def [symmetric]
    using d by (auto simp: t)
  then show ?thesis by (simp add: d_def f_def)
qed

lemma round_half_even_nearest:
  "\<bar>of_int (round_half_even t) - t\<bar> \<le> \<bar>of_int k - t\<bar>"
proof -
  define f where "f = \<lfloor>t\<rfloor>"
  define d where "d = t - of_int f"
  have d: "0 \<le> d" "d < 1"
    unfolding d_def f_def by linarith+
  have t: "t = of_int f + d" by (simp add: d_def)
  consider "k \<le> f" | "f + 1 \<le> k" by linarith
  then have far: "min d (1 - d) \<le> \<bar>of_int k - t\<bar>"
  proof cases
    case 1
    then have "(of_int k :: rat) \<le> of_int f" by simp
    with d show ?thesis unfolding t by linarith
  next
    case 2
    then have "(of_int f :: rat) + 1 \<le> of_int k"
      by (metis of_int_1 of_int_add of_int_le_iff)
    with d show ?thesis unfolding t by linarith
  qed
  from round_half_even_frac [of t] have "\<bar>of_int (round_half_even t) - t\<bar> \<le> min d (1 - d)"
    by (simp only: d_def f_def)
  then show ?thesis using far by (rule order_trans)
qed

lemma round_half_even_half: "\<bar>of_int (round_half_even t) - t\<bar> \<le> 1 / 2"
  using round_half_even_frac [of t] by linarith


lemma round_half_even_ge: "of_int k \<le> t \<Longrightarrow> k \<le> round_half_even t"
proof -
  assume "of_int k \<le> t"
  then have "k \<le> \<lfloor>t\<rfloor>" by (simp add: le_floor_iff)
  moreover have "\<lfloor>t\<rfloor> \<le> round_half_even t"
    by (simp add: round_half_even_def Let_def)
  ultimately show ?thesis by simp
qed

lemma round_half_even_le: "t \<le> of_int k \<Longrightarrow> round_half_even t \<le> k"
proof -
  assume le: "t \<le> of_int k"
  show ?thesis
  proof (cases "t = of_int k")
    case True
    then show ?thesis by simp
  next
    case False
    with le have "t < of_int k" by simp
    then have "\<lfloor>t\<rfloor> < k" by (simp add: floor_less_iff)
    moreover have "round_half_even t \<le> \<lfloor>t\<rfloor> + 1"
      by (simp add: round_half_even_def Let_def)
    ultimately show ?thesis by simp
  qed
qed

lemma round_half_even_odd_up:
  assumes "odd j" and "of_int j + 1 / 2 \<le> t"
  shows "j + 1 \<le> round_half_even t"
proof (cases "of_int (j + 1) \<le> t")
  case True
  then show ?thesis by (rule round_half_even_ge)
next
  case False
  then have "t < of_int j + 1" by simp
  moreover from assms(2) have "of_int j \<le> t" by linarith
  ultimately have f: "\<lfloor>t\<rfloor> = j" by (simp add: floor_unique)
  with assms show ?thesis
    by (auto simp: round_half_even_def Let_def)
qed

lemma round_to_double_unfold:
  assumes "x \<noteq> 0"
  defines "e \<equiv> max (ilog2 \<bar>x\<bar>) (- 1022)"
  defines "u \<equiv> pow2 (e - 52)"
  defines "m \<equiv> round_half_even (\<bar>x\<bar> / u)"
  shows "round_to_double x =
      (if pow2 1024 \<le> of_int m * u then (if 0 < x then PosInf else NegInf)
       else Finite (sgn x * (of_int m * u)))"
    and "0 < u"
    and "\<bar>x\<bar> / u < pow2 53"
    and "- 1022 \<le> ilog2 \<bar>x\<bar> \<Longrightarrow> pow2 52 \<le> \<bar>x\<bar> / u"
    and "0 \<le> m" and "m \<le> 2 ^ 53"
    and "- 1022 \<le> ilog2 \<bar>x\<bar> \<Longrightarrow> 2 ^ 52 \<le> m"
    and "\<bar>of_int m * u - \<bar>x\<bar>\<bar> \<le> \<bar>of_int k * u - \<bar>x\<bar>\<bar>"
    and "\<bar>of_int m * u - \<bar>x\<bar>\<bar> \<le> u / 2"
proof -
  from assms(1) have a: "0 < \<bar>x\<bar>" by simp
  note b = ilog2_bounds [OF a]
  show "round_to_double x =
      (if pow2 1024 \<le> of_int m * u then (if 0 < x then PosInf else NegInf)
       else Finite (sgn x * (of_int m * u)))"
    using assms(1) by (simp add: round_to_double_def Let_def e_def u_def m_def)
  show u: "0 < u" by (simp add: u_def)
  have e: "ilog2 \<bar>x\<bar> \<le> e" by (simp add: e_def)
  show t_upper: "\<bar>x\<bar> / u < pow2 53"
  proof -
    from e have "pow2 (ilog2 \<bar>x\<bar> + 1) \<le> pow2 (e + 1)"
      by (simp add: pow2_le_iff)
    with b(2) have "\<bar>x\<bar> < pow2 (e + 1)"
      by (rule less_le_trans)
    also have "\<dots> = pow2 53 * u"
      unfolding u_def by (rule pow2_mult [symmetric]) simp
    finally show ?thesis using u by (simp add: pos_divide_less_eq)
  qed
  show t_lower: "pow2 52 \<le> \<bar>x\<bar> / u" if "- 1022 \<le> ilog2 \<bar>x\<bar>"
  proof -
    from that have "e = ilog2 \<bar>x\<bar>" by (simp add: e_def)
    then have "pow2 52 * u = pow2 (ilog2 \<bar>x\<bar>)"
      unfolding u_def by (intro pow2_mult) simp
    with b(1) show ?thesis using u by (simp add: pos_le_divide_eq)
  qed
  have "(0::rat) \<le> \<bar>x\<bar> / u" using u by simp
  then have "of_int 0 \<le> \<bar>x\<bar> / u" by simp
  then show "0 \<le> m" unfolding m_def by (rule round_half_even_ge)
  from t_upper have "\<bar>x\<bar> / u \<le> of_int (2 ^ 53)" by (simp add: pow2_nat)
  then show "m \<le> 2 ^ 53" unfolding m_def by (rule round_half_even_le)
  show "2 ^ 52 \<le> m" if "- 1022 \<le> ilog2 \<bar>x\<bar>"
  proof -
    from t_lower [OF that] have "of_int (2 ^ 52) \<le> \<bar>x\<bar> / u" by (simp add: pow2_nat)
    then show ?thesis unfolding m_def by (rule round_half_even_ge)
  qed
  have scale: "\<bar>of_int j * u - \<bar>x\<bar>\<bar> = u * \<bar>of_int j - \<bar>x\<bar> / u\<bar>" for j :: int
  proof -
    have "of_int j * u - \<bar>x\<bar> = u * (of_int j - \<bar>x\<bar> / u)"
      using u by (simp add: field_simps)
    then show ?thesis using u by (simp add: abs_mult)
  qed
  show "\<bar>of_int m * u - \<bar>x\<bar>\<bar> \<le> \<bar>of_int k * u - \<bar>x\<bar>\<bar>"
    unfolding scale m_def using u round_half_even_nearest [of "\<bar>x\<bar> / u" k]
    by (simp add: mult_left_mono)
  show "\<bar>of_int m * u - \<bar>x\<bar>\<bar> \<le> u / 2"
    unfolding scale m_def using u round_half_even_half [of "\<bar>x\<bar> / u"]
    by (simp add: field_simps)
qed


lemma round_to_double_not_NaN [simp]: "round_to_double x \<noteq> NaN"
  by (simp add: round_to_double_def Let_def)

lemma is_doubleI: "x = of_int m * pow2 e \<Longrightarrow> \<bar>m\<bar> < 2 ^ 53 \<Longrightarrow> - 1074 \<le> e \<Longrightarrow> e \<le> 971 \<Longrightarrow> is_double x"
  unfolding is_double_def pow2_def by blast

lemma is_doubleE:
  assumes "is_double x"
  obtains m e where "x = of_int m * pow2 e" "\<bar>m\<bar> < 2 ^ 53" "- 1074 \<le> e" "e \<le> 971"
  using assms unfolding is_double_def pow2_def by blast

lemma is_double_bound:
  assumes "x = of_int m * pow2 e" and "\<bar>m\<bar> < 2 ^ 53"
  shows "\<bar>x\<bar> < pow2 (53 + e)"
proof -
  from assms(2) have "(of_int \<bar>m\<bar> :: rat) < of_int (2 ^ 53)"
    by (simp only: of_int_less_iff)
  then have "(of_int \<bar>m\<bar> :: rat) < pow2 53"
    by (simp add: pow2_nat)
  then have "of_int \<bar>m\<bar> * pow2 e < pow2 53 * pow2 e"
    by (simp add: mult_strict_right_mono)
  then show ?thesis
    by (simp add: assms(1) abs_mult pow2_add)
qed

lemma round_to_double_exact:
  assumes "is_double x"
  shows "round_to_double x = Finite x"
proof (cases "x = 0")
  case True
  then show ?thesis by (simp add: round_to_double_def)
next
  case False
  from assms obtain M E where x: "x = of_int M * pow2 E" and M: "\<bar>M\<bar> < 2 ^ 53"
    and E: "- 1074 \<le> E" "E \<le> 971"
    by (rule is_doubleE)
  define e where "e = max (ilog2 \<bar>x\<bar>) (- 1022)"
  define u where "u = pow2 (e - 52)"
  define m where "m = round_half_even (\<bar>x\<bar> / u)"
  note rd = round_to_double_unfold [OF False, folded e_def u_def m_def]
  from False have a: "0 < \<bar>x\<bar>" by simp
  have small: "\<bar>x\<bar> < pow2 (53 + E)"
    using x M by (rule is_double_bound)
  with ilog2_bounds(1) [OF a] have "pow2 (ilog2 \<bar>x\<bar>) < pow2 (53 + E)"
    by (rule le_less_trans)
  then have "ilog2 \<bar>x\<bar> < 53 + E" by (simp add: pow2_less_iff)
  with E have n: "0 \<le> E - (e - 52)" by (simp add: e_def)
  have "\<bar>x\<bar> / u = of_int \<bar>M\<bar> * (pow2 E / pow2 (e - 52))"
    by (simp add: x u_def abs_mult)
  also have "pow2 E / pow2 (e - 52) = of_int (2 ^ nat (E - (e - 52)))"
    using n by (simp add: pow2_diff [symmetric] pow2_nat)
  finally have t: "\<bar>x\<bar> / u = of_int (\<bar>M\<bar> * 2 ^ nat (E - (e - 52)))"
    by simp
  have "of_int m = \<bar>x\<bar> / u"
    unfolding m_def by (subst (1 2) t) (simp only: round_half_even_of_int)
  then have r: "of_int m * u = \<bar>x\<bar>"
    using rd(2) by simp
  from E have "pow2 (53 + E) \<le> pow2 1024" by (simp add: pow2_le_iff)
  with small have "\<not> pow2 1024 \<le> \<bar>x\<bar>" by simp
  then show ?thesis
    unfolding rd(1) r by (simp add: sgn_mult_abs)
qed

lemma round_to_double_minus:
  "round_to_double (- x) =
     (case round_to_double x of Finite r \<Rightarrow> Finite (- r) | PosInf \<Rightarrow> NegInf
      | NegInf \<Rightarrow> PosInf | NaN \<Rightarrow> NaN)"
  by (cases "x = 0"; cases "0 < x") (auto simp: round_to_double_def Let_def)

lemma round_to_double_PosInf_iff:
  "round_to_double x = PosInf \<longleftrightarrow> pow2 1024 - pow2 970 \<le> x"
proof (cases "x = 0")
  case True
  have "pow2 970 < pow2 1024" by (simp add: pow2_less_iff)
  with True show ?thesis by (simp add: round_to_double_def)
next
  case False
  define e where "e = max (ilog2 \<bar>x\<bar>) (- 1022)"
  define u where "u = pow2 (e - 52)"
  define m where "m = round_half_even (\<bar>x\<bar> / u)"
  note rd = round_to_double_unfold [OF False, folded e_def u_def m_def]
  from False have a: "0 < \<bar>x\<bar>" by simp
  note b = ilog2_bounds [OF a]
  have gap: "pow2 970 < pow2 1024" by (simp add: pow2_less_iff)
  have inf: "round_to_double x = PosInf \<longleftrightarrow> 0 < x \<and> pow2 1024 \<le> of_int m * u"
    unfolding rd(1) by auto
  show ?thesis
  proof
    assume "round_to_double x = PosInf"
    with inf have pos: "0 < x" and big: "pow2 1024 \<le> of_int m * u" by simp_all
    show "pow2 1024 - pow2 970 \<le> x"
    proof (rule ccontr)
      assume "\<not> pow2 1024 - pow2 970 \<le> x"
      with pos have lt: "\<bar>x\<bar> < pow2 1024 - pow2 970" by simp
      with pow2_pos [of 970] have "\<bar>x\<bar> < pow2 1024" by linarith
      with b(1) have "pow2 (ilog2 \<bar>x\<bar>) < pow2 1024" by (rule le_less_trans)
      then have "e \<le> 1023" by (simp add: pow2_less_iff e_def)
      then have "u \<le> pow2 971" by (simp add: u_def pow2_le_iff)
      moreover have "pow2 971 = 2 * pow2 970"
        using pow2_add [of 1 970] by (simp add: pow2_def)
      ultimately have "u / 2 \<le> pow2 970" by simp
      with rd(9) have "of_int m * u \<le> \<bar>x\<bar> + pow2 970" by linarith
      with lt big show False by linarith
    qed
  next
    assume ge: "pow2 1024 - pow2 970 \<le> x"
    have half: "pow2 1024 = 2 * pow2 1023"
      using pow2_add [of 1 1023] by (simp add: pow2_def)
    have "pow2 970 \<le> pow2 1023" by (simp add: pow2_le_iff)
    with ge half have x1023: "pow2 1023 \<le> x" by linarith
    then have pos: "0 < x" by (rule less_le_trans [OF pow2_pos])
    then have ax: "\<bar>x\<bar> = x" by simp
    from x1023 b(2) have "pow2 1023 < pow2 (ilog2 \<bar>x\<bar> + 1)"
      unfolding ax by (rule le_less_trans)
    then have e0: "1023 \<le> ilog2 \<bar>x\<bar>" by (simp add: pow2_less_iff)
    then have normal: "- 1022 \<le> ilog2 \<bar>x\<bar>" and ee: "e = ilog2 \<bar>x\<bar>"
      by (simp_all add: e_def)
    have "pow2 1024 \<le> of_int m * u"
    proof (cases "1024 \<le> e")
      case True
      from rd(7) [OF normal] have "(of_int (2 ^ 52) :: rat) \<le> of_int m"
        by (simp only: of_int_le_iff)
      then have "pow2 52 \<le> of_int m" by (simp add: pow2_nat)
      then have "pow2 52 * u \<le> of_int m * u"
        using rd(2) by (simp add: mult_right_mono)
      moreover have "pow2 52 * u = pow2 e"
        unfolding u_def by (rule pow2_mult) simp
      moreover from True have "pow2 1024 \<le> pow2 e" by (simp add: pow2_le_iff)
      ultimately show ?thesis by simp
    next
      case False
      with e0 ee have e: "e = 1023" by simp
      then have u: "u = pow2 971" by (simp add: u_def)
      have "pow2 1024 = pow2 53 * pow2 971" and "pow2 970 = (1 / 2) * pow2 971"
        using pow2_add [of 53 971] pow2_add [of "- 1" 971] by (simp_all add: pow2_def)
      with ge have "(pow2 53 - 1 / 2) * pow2 971 \<le> x"
        by (simp add: algebra_simps)
      then have "pow2 53 - 1 / 2 \<le> \<bar>x\<bar> / u"
        unfolding u ax by (simp add: pos_le_divide_eq)
      then have "of_int (2 ^ 53 - 1) + 1 / 2 \<le> \<bar>x\<bar> / u"
        by (simp add: pow2_nat)
      moreover have "odd ((2::int) ^ 53 - 1)" by simp
      ultimately have "(2 ^ 53 - 1) + 1 \<le> m"
        unfolding m_def by (intro round_half_even_odd_up)
      then have "2 ^ 53 \<le> m" by simp
      then have "(of_int (2 ^ 53) :: rat) \<le> of_int m"
        by (simp only: of_int_le_iff)
      then have "pow2 53 \<le> of_int m" by (simp add: pow2_nat)
      then have "pow2 53 * u \<le> of_int m * u"
        using rd(2) by (simp add: mult_right_mono)
      moreover have "pow2 53 * u = pow2 1024"
        unfolding u by (rule pow2_mult) simp
      ultimately show ?thesis by simp
    qed
    with pos show "round_to_double x = PosInf" by (simp add: inf)
  qed
qed

lemma round_to_double_NegInf_iff:
  "round_to_double x = NegInf \<longleftrightarrow> x \<le> - (pow2 1024 - pow2 970)"
proof -
  have "round_to_double x = NegInf \<longleftrightarrow> round_to_double (- x) = PosInf"
    by (simp add: round_to_double_minus split: double.splits)
  also have "\<dots> \<longleftrightarrow> pow2 1024 - pow2 970 \<le> - x"
    by (rule round_to_double_PosInf_iff)
  finally show ?thesis by linarith
qed


lemma round_to_double_is_double:
  assumes "round_to_double x = Finite r"
  shows "is_double r"
proof (cases "x = 0")
  case True
  with assms have "r = 0" by (simp add: round_to_double_def)
  then show ?thesis by (intro is_doubleI [of _ 0 0]) simp_all
next
  case False
  define e where "e = max (ilog2 \<bar>x\<bar>) (- 1022)"
  define u where "u = pow2 (e - 52)"
  define m where "m = round_half_even (\<bar>x\<bar> / u)"
  note rd = round_to_double_unfold [OF False, folded e_def u_def m_def]
  from assms have fin: "\<not> pow2 1024 \<le> of_int m * u" and r: "r = sgn x * (of_int m * u)"
    unfolding rd(1) by (auto split: if_splits)
  define s :: int where "s = (if 0 < x then 1 else - 1)"
  have s: "sgn x = of_int s" "\<bar>s\<bar> = 1"
    using False by (auto simp: s_def sgn_if)
  have lo: "- 1074 \<le> e - 52" by (simp add: e_def)
  show ?thesis
  proof (cases "m = 2 ^ 53")
    case True
    have "of_int m * u = pow2 53 * u"
      by (simp add: True pow2_nat)
    also have "\<dots> = pow2 (e + 1)"
      unfolding u_def by (rule pow2_mult) simp
    finally have mu: "of_int m * u = pow2 (e + 1)" .
    with fin have "pow2 (e + 1) < pow2 1024" by simp
    then have hi: "e - 51 \<le> 971" by (simp add: pow2_less_iff)
    have "pow2 (e + 1) = pow2 52 * pow2 (e - 51)"
      by (rule pow2_mult [symmetric]) simp
    then have "r = of_int (s * 2 ^ 52) * pow2 (e - 51)"
      by (simp add: r mu s(1) pow2_nat)
    moreover have "\<bar>s * 2 ^ 52\<bar> < (2::int) ^ 53"
      by (simp add: abs_mult s(2))
    ultimately show ?thesis
      using lo hi by (intro is_doubleI [of _ "s * 2 ^ 52" "e - 51"]) simp_all
  next
    case False
    with rd(6) have m: "m < 2 ^ 53" by simp
    have hi: "e - 52 \<le> 971"
    proof (rule ccontr)
      assume "\<not> e - 52 \<le> 971"
      then have big: "1024 \<le> e" by simp
      then have normal: "- 1022 \<le> ilog2 \<bar>x\<bar>" by (simp add: e_def)
      from rd(7) [OF normal] have "(of_int (2 ^ 52) :: rat) \<le> of_int m"
        by (simp only: of_int_le_iff)
      then have "pow2 52 \<le> of_int m" by (simp add: pow2_nat)
      then have "pow2 52 * u \<le> of_int m * u"
        using rd(2) by (simp add: mult_right_mono)
      moreover have "pow2 52 * u = pow2 e"
        unfolding u_def by (rule pow2_mult) simp
      moreover from big have "pow2 1024 \<le> pow2 e" by (simp add: pow2_le_iff)
      ultimately show False using fin by simp
    qed
    have "r = of_int (s * m) * pow2 (e - 52)"
      by (simp add: r s(1) u_def)
    moreover have "\<bar>s * m\<bar> < 2 ^ 53"
      using m rd(5) by (simp add: abs_mult s(2))
    ultimately show ?thesis
      using lo hi by (intro is_doubleI [of _ "s * m" "e - 52"]) simp_all
  qed
qed

lemma round_to_double_nearest:
  assumes "round_to_double x = Finite r" and "is_double d"
  shows "\<bar>r - x\<bar> \<le> \<bar>d - x\<bar>"
proof (cases "x = 0")
  case True
  with assms(1) have "r = 0" by (simp add: round_to_double_def)
  with True show ?thesis by simp
next
  case False
  define e where "e = max (ilog2 \<bar>x\<bar>) (- 1022)"
  define u where "u = pow2 (e - 52)"
  define m where "m = round_half_even (\<bar>x\<bar> / u)"
  note rd = round_to_double_unfold [OF False, folded e_def u_def m_def]
  from False have a: "0 < \<bar>x\<bar>" by simp
  from assms(1) have r: "r = sgn x * (of_int m * u)"
    unfolding rd(1) by (auto split: if_splits)
  have "x = sgn x * \<bar>x\<bar>" by (simp add: sgn_mult_abs)
  then have "r - x = sgn x * (of_int m * u) - sgn x * \<bar>x\<bar>" by (simp add: r)
  then have "r - x = sgn x * (of_int m * u - \<bar>x\<bar>)"
    by (simp only: right_diff_distrib)
  then have dist: "\<bar>r - x\<bar> = \<bar>of_int m * u - \<bar>x\<bar>\<bar>"
    using False by (simp add: abs_mult abs_sgn_eq)
  from assms(2) obtain M E where d: "d = of_int M * pow2 E" and M: "\<bar>M\<bar> < 2 ^ 53"
    and E: "- 1074 \<le> E" "E \<le> 971"
    by (rule is_doubleE)
  show ?thesis
  proof (cases "e - 52 \<le> E")
    case True
    define K where "K = M * 2 ^ nat (E - (e - 52))"
    have "pow2 E = pow2 (E - (e - 52)) * u"
      unfolding u_def by (rule pow2_mult [symmetric]) simp
    also have "pow2 (E - (e - 52)) = of_int (2 ^ nat (E - (e - 52)))"
      using True by (simp add: pow2_nat)
    finally have dK: "d = of_int K * u"
      by (simp add: d K_def)
    define j where "j = (if 0 < x then K else - K)"
    have "\<bar>d - x\<bar> = \<bar>of_int j * u - \<bar>x\<bar>\<bar>"
    proof (cases "0 < x")
      case True
      then show ?thesis by (simp add: dK j_def)
    next
      case neg: False
      with False have "\<bar>x\<bar> = - x" by simp
      moreover have "\<bar>d - x\<bar> = \<bar>- d - (- x)\<bar>" by simp
      ultimately show ?thesis using neg by (simp add: dK j_def)
    qed
    with rd(8) [of j] show ?thesis by (simp add: dist)
  next
    case small: False
    with E have "- 1022 < e" by simp
    then have normal: "- 1022 \<le> ilog2 \<bar>x\<bar>" and ee: "e = ilog2 \<bar>x\<bar>"
      by (simp_all add: e_def max_def split: if_splits)
    have below: "pow2 e \<le> \<bar>x\<bar>"
      unfolding ee by (rule ilog2_bounds(1) [OF a])
    have "\<bar>d\<bar> < pow2 (53 + E)"
      using d M by (rule is_double_bound)
    also from small have "\<dots> \<le> pow2 e" by (simp add: pow2_le_iff)
    finally have dlt: "\<bar>d\<bar> < pow2 e" .
    have "pow2 52 * u = pow2 e"
      unfolding u_def by (rule pow2_mult) simp
    then have "of_int (2 ^ 52) * u = pow2 e"
      by (simp add: pow2_nat)
    with rd(8) [of "2 ^ 52"] have "\<bar>of_int m * u - \<bar>x\<bar>\<bar> \<le> \<bar>pow2 e - \<bar>x\<bar>\<bar>"
      by simp
    also have "\<dots> = \<bar>x\<bar> - pow2 e" using below by simp
    also have "\<dots> \<le> \<bar>x\<bar> - \<bar>d\<bar>" using dlt by simp
    also have "\<dots> \<le> \<bar>d - x\<bar>" by linarith
    finally show ?thesis by (simp add: dist)
  qed
qed

lemma pow2_numeral: "pow2 1024 = 2 ^ 1024" "pow2 970 = 2 ^ 970"
  by (simp_all only: pow2_def power_int_numeral)

lemma float_of_int_exact:
  assumes "\<bar>n\<bar> < 2 ^ 53"
  shows "float_of_int n = Finite (of_int n)"
  unfolding float_of_int_def
  using assms by (intro round_to_double_exact is_doubleI [of _ n 0]) (simp_all add: pow2_def)

lemma round_to_double_code [code]:
  "round_to_double x =
     (if x = 0 then Finite 0
      else let e = max (ilog2 \<bar>x\<bar>) (- 1022);
               m = round_half_even (\<bar>x\<bar> / pow2 (e - 52))
           in if 1024 \<le> e \<or> e = 1023 \<and> 2 ^ 53 \<le> m then (if 0 < x then PosInf else NegInf)
              else Finite (sgn x * (of_int m * pow2 (e - 52))))"
proof (cases "x = 0")
  case True
  then show ?thesis by (simp add: round_to_double_def)
next
  case False
  define e where "e = max (ilog2 \<bar>x\<bar>) (- 1022)"
  define u where "u = pow2 (e - 52)"
  define m where "m = round_half_even (\<bar>x\<bar> / u)"
  note rd = round_to_double_unfold [OF False, folded e_def u_def m_def]
  have "pow2 1024 \<le> of_int m * u \<longleftrightarrow> 1024 \<le> e \<or> e = 1023 \<and> 2 ^ 53 \<le> m"
  proof (intro iffI; (elim disjE conjE)?)
    assume big: "1024 \<le> e"
    then have normal: "- 1022 \<le> ilog2 \<bar>x\<bar>" by (simp add: e_def)
    from rd(7) [OF normal] have "(of_int (2 ^ 52) :: rat) \<le> of_int m"
      by (simp only: of_int_le_iff)
    then have "pow2 52 \<le> of_int m" by (simp add: pow2_nat)
    then have "pow2 52 * u \<le> of_int m * u"
      using rd(2) by (simp add: mult_right_mono)
    moreover have "pow2 52 * u = pow2 e"
      unfolding u_def by (rule pow2_mult) simp
    moreover from big have "pow2 1024 \<le> pow2 e" by (simp add: pow2_le_iff)
    ultimately show "pow2 1024 \<le> of_int m * u" by simp
  next
    assume e: "e = 1023" and "2 ^ 53 \<le> m"
    then have "(of_int (2 ^ 53) :: rat) \<le> of_int m"
      by (simp only: of_int_le_iff)
    then have "pow2 53 \<le> of_int m" by (simp add: pow2_nat)
    then have "pow2 53 * u \<le> of_int m * u"
      using rd(2) by (simp add: mult_right_mono)
    moreover have "pow2 53 * u = pow2 1024"
      unfolding u_def e by (rule pow2_mult) simp
    ultimately show "pow2 1024 \<le> of_int m * u" by simp
  next
    assume over: "pow2 1024 \<le> of_int m * u"
    show "1024 \<le> e \<or> e = 1023 \<and> 2 ^ 53 \<le> m"
    proof (rule ccontr)
      assume "\<not> (1024 \<le> e \<or> e = 1023 \<and> 2 ^ 53 \<le> m)"
      then consider "e \<le> 1022" | "e = 1023" "m < 2 ^ 53" by linarith
      then have "of_int m * u < pow2 1024"
      proof cases
        case 1
        from rd(6) have "(of_int m :: rat) \<le> of_int (2 ^ 53)"
          by (simp only: of_int_le_iff)
        then have "of_int m \<le> pow2 53" by (simp add: pow2_nat)
        then have "of_int m * u \<le> pow2 53 * u"
          using rd(2) by (simp add: mult_right_mono)
        also have "pow2 53 * u = pow2 (e + 1)"
          unfolding u_def by (rule pow2_mult) simp
        also from 1 have "\<dots> < pow2 1024" by (simp add: pow2_less_iff)
        finally show ?thesis .
      next
        case 2
        from 2(2) have "(of_int m :: rat) < of_int (2 ^ 53)"
          by (simp only: of_int_less_iff)
        then have "of_int m < pow2 53" by (simp add: pow2_nat)
        then have "of_int m * u < pow2 53 * u"
          using rd(2) by (simp add: mult_strict_right_mono)
        also have "pow2 53 * u = pow2 1024"
          unfolding u_def 2(1) by (rule pow2_mult) simp
        finally show ?thesis .
      qed
      with over show False by simp
    qed
  qed
  then have "round_to_double x =
      (if 1024 \<le> e \<or> e = 1023 \<and> 2 ^ 53 \<le> m then (if 0 < x then PosInf else NegInf)
       else Finite (sgn x * (of_int m * u)))"
    unfolding rd(1) by simp
  then show ?thesis
    unfolding Let_def if_not_P [OF False] e_def [symmetric] u_def [symmetric] m_def [symmetric] .
qed

lemma float_mul_overflow: "float_mul (float_of_int 3) (Finite (pow2 1023)) = PosInf"
proof -
  have "float_of_int 3 = Finite 3"
    using float_of_int_exact [of 3] by simp
  moreover have "pow2 1024 - pow2 970 \<le> 3 * pow2 1023"
  proof -
    have "pow2 1024 = 2 * pow2 1023"
      using pow2_mult [of 1024 1 1023] by (simp add: pow2_def [of 1])
    moreover have "0 < pow2 970" "0 < pow2 1023" by simp_all
    ultimately show ?thesis by linarith
  qed
  ultimately show ?thesis
    by (simp add: round_to_double_PosInf_iff)
qed

section \<open>Calendar dates\<close>

lemma days_before_month_bounds:
  assumes "1 \<le> m" and "m \<le> 12"
  shows "0 \<le> days_before_month y m" and "days_before_month y m \<le> 335"
    and "days_in_month y m \<le> 31"
proof -
  from assms have "m = 1 \<or> m = 2 \<or> m = 3 \<or> m = 4 \<or> m = 5 \<or> m = 6 \<or> m = 7
    \<or> m = 8 \<or> m = 9 \<or> m = 10 \<or> m = 11 \<or> m = 12"
    by presburger
  then have "0 \<le> days_before_month y m \<and> days_before_month y m \<le> 335
      \<and> days_in_month y m \<le> 31"
    by (elim disjE) (simp_all add: days_before_month_def days_in_month_def DAYS_IN_MONTH_def)
  then show "0 \<le> days_before_month y m" and "days_before_month y m \<le> 335"
    and "days_in_month y m \<le> 31"
    by simp_all
qed

lemma days_before_year_bounds:
  assumes "1 \<le> y" and "y \<le> 9999"
  shows "0 \<le> days_before_year y" and "days_before_year y \<le> 3651769"
proof -
  from assms have a: "0 \<le> y - 1"
    by simp
  have d1: "(y - 1) div 100 \<le> (y - 1) div 4"
    using a by (intro zdiv_mono2) simp_all
  have d2: "(y - 1) div 400 \<le> (y - 1) div 100"
    using a by (intro zdiv_mono2) simp_all
  have d3: "0 \<le> (y - 1) div 400"
    using a by simp
  from assms have d4: "(y - 1) div 4 \<le> 2499"
    by simp
  from assms have d5: "(y - 1) * 365 \<le> 3649270" and d6: "0 \<le> (y - 1) * 365"
    by simp_all
  from d1 d3 d6 show "0 \<le> days_before_year y"
    unfolding days_before_year_def by linarith
  from d2 d4 d5 show "days_before_year y \<le> 3651769"
    unfolding days_before_year_def by linarith
qed

lemma toordinal_bounds:
  assumes "valid_date d"
  shows "1 \<le> toordinal d" and "toordinal d < 2 ^ 22"
proof -
  from assms have y: "1 \<le> year d" "year d \<le> 9999" and m: "1 \<le> month d" "month d \<le> 12"
    and dd: "1 \<le> day d" "day d \<le> days_in_month (year d) (month d)"
    by (simp_all add: valid_date_def)
  note mb = days_before_month_bounds [OF m, of "year d"]
  note yb = days_before_year_bounds [OF y]
  from yb(1) mb(1) dd(1) show "1 \<le> toordinal d"
    unfolding toordinal_def by linarith
  from dd(2) mb(3) have "day d \<le> 31"
    by (rule order_trans)
  with yb(2) mb(2) have "toordinal d \<le> 3652135"
    unfolding toordinal_def by linarith
  then show "toordinal d < 2 ^ 22"
    by simp
qed

lemma days_between_small:
  assumes "valid_date check_out" and "valid_date check_in"
  shows "days_between check_out check_in < 2 ^ 53"
proof -
  from toordinal_bounds [OF assms(1)] toordinal_bounds [OF assms(2)]
  have "days_between check_out check_in < 2 ^ 22"
    by (simp add: days_between_def)
  then show ?thesis by simp
qed

section \<open>Properties of the store operations\<close>

lemma find_one_None_iff:
  "find_one rx flt coll = None \<longleftrightarrow> (\<forall>d\<in>set coll. \<not> matches rx flt d)"
proof -
  have "find_one rx flt coll = None \<longleftrightarrow> filter (matches rx flt) coll = []"
    by (simp add: find_one_def find_def split: list.splits)
  then show ?thesis by (simp add: filter_empty_conv)
qed

lemma find_one_SomeD:
  assumes "find_one rx flt coll = Some d"
  shows "d \<in> set coll" and "matches rx flt d"
proof -
  from assms obtain ds where "filter (matches rx flt) coll = d # ds"
    by (auto simp: find_one_def find_def split: list.splits)
  then have "d \<in> set (filter (matches rx flt) coll)" by simp
  then show "d \<in> set coll" and "matches rx flt d" by simp_all
qed

lemma matches_field_str: "matches rx [(k, PStr x)] d \<longleftrightarrow> map_of d k = Some (PStr x)"
  by (auto simp: matches_def cond_holds_def)

lemma matches_empty: "matches rx [] d"
  by (simp add: matches_def)

lemma find_one_id_nonempty: "find_one rx [(k, PStr x)] coll = Some d \<Longrightarrow> d \<noteq> []"
  by (auto dest!: find_one_SomeD(2) simp: matches_field_str)

lemma Property_parse_price:
  "Property_parse d = Some p \<Longrightarrow>
     map_of d ''price_per_night'' = Some (PFloat (Finite (p_price_per_night p)))"
  unfolding Property_parse_def
  by (auto simp: get_float_def split: Option.bind_splits option.splits pyval.splits double.splits)

lemma Property_parse_available:
  "Property_parse d = Some p \<Longrightarrow> map_of d ''available'' = Some (PBool (p_available p))"
  unfolding Property_parse_def
  by (auto simp: get_bool_def split: Option.bind_splits option.splits pyval.splits)


lemma create_booking_stores:
  assumes found: "find_one rx [(''id'', PStr (bc_property_id booking_data))] (properties s) = Some property_doc"
    and price: "map_of property_doc ''price_per_night'' = Some (PFloat price)"
    and days: "0 < days_between (bc_check_out booking_data) (bc_check_in booking_data)"
  shows "create_booking rx env s booking_data current_user =
    (Inr [(''success'', PBool True), (''booking_id'', PStr (uuid4 env)),
          (''total_price'',
           PFloat (float_mul
             (float_of_int (days_between (bc_check_out booking_data) (bc_check_in booking_data)))
             price))],
     s\<lparr>bookings := bookings s @
        [[(''_id'', PObjectId (ObjectId env)),
          (''id'', PStr (uuid4 env)),
          (''user_id'', PStr (u_id current_user)),
          (''property_id'', PStr (bc_property_id booking_data)),
          (''check_in'', PStr (isoformat (bc_check_in booking_data))),
          (''check_out'', PStr (isoformat (bc_check_out booking_data))),
          (''guests'', PInt (bc_guests booking_data)),
          (''total_price'',
           PFloat (float_mul
             (float_of_int (days_between (bc_check_out booking_data) (bc_check_in booking_data)))
             price)),
          (''status'', PStr ''confirmed''),
          (''created_at'', PDatetime (utcnow env))]]\<rparr>)"
proof -
  have ne: "property_doc \<noteq> []" using found by (rule find_one_id_nonempty)
  show ?thesis
    using found price days ne
    by (simp add: create_booking_def float_validate_def Booking_dict_def insert_one_def Let_def)
qed

section \<open>Booking creation\<close>

lemma create_booking_not_found:
  assumes "find_one rx [(''id'', PStr (bc_property_id booking_data))] (properties s) = None"
  shows "create_booking rx env s booking_data current_user =
    (Inl (HTTPException 404 ''Property not found''), s)"
  using assms by (simp add: create_booking_def)

lemma create_booking_invalid_range:
  assumes "find_one rx [(''id'', PStr (bc_property_id booking_data))] (properties s) = Some property_doc"
    and "days_between (bc_check_out booking_data) (bc_check_in booking_data) \<le> 0"
  shows "create_booking rx env s booking_data current_user =
    (Inl (HTTPException 400 ''Invalid date range''), s)"
  using assms find_one_id_nonempty [OF assms(1)] by (simp add: create_booking_def)

lemma create_booking_found_not_404:
  assumes "find_one rx [(''id'', PStr (bc_property_id booking_data))] (properties s) = Some property_doc"
  shows "fst (create_booking rx env s booking_data current_user) \<noteq>
    Inl (HTTPException 404 ''Property not found'')"
  using assms find_one_id_nonempty [OF assms]
  by (simp add: create_booking_def Let_def split: option.splits)

text \<open>
  C1 says that the total price returned is exactly the night count times the price of the
  property. The handler computes \<^verbatim>\<open>days * property_doc["price_per_night"]\<close> in floating
  point, and the product of an integer and a double need not be a double: for the listing
  priced \<^verbatim>\<open>0.1\<close> (the double \<open>3602879701896397 / 2 ^ 55\<close>) three nights cost
  \<open>1351079888211149 / 2 ^ 52\<close>, the Python float \<^verbatim>\<open>0.30000000000000004\<close>, which is not three
  times the price.
\<close>

theorem create_booking_rounded_total_counterexample:
  "is_double (p_price_per_night budget_room)
   \<and> find_one example_rx [(''id'', PStr (bc_property_id budget_request))] (properties budget_db)
       = Some (stored 9 (Property_dict budget_room))
   \<and> Property_parse (stored 9 (Property_dict budget_room)) = Some budget_room
   \<and> days_between (bc_check_out budget_request) (bc_check_in budget_request) = 3
   \<and> fst (create_booking example_rx example_env budget_db budget_request alice) =
       Inr [(''success'', PBool True), (''booking_id'', PStr ''b-3''),
            (''total_price'', PFloat (Finite (1351079888211149 / 2 ^ 52)))]
   \<and> (1351079888211149 / 2 ^ 52 :: rat) \<noteq> 3 * p_price_per_night budget_room"
proof -
  have price: "p_price_per_night budget_room = of_int 3602879701896397 * pow2 (- 55)"
    by (simp add: budget_room_def sample_property_def tenth_def pow2_def power_int_minus
        field_simps)
  then have "is_double (p_price_per_night budget_room)"
    by (rule is_doubleI) simp_all
  moreover have "find_one example_rx [(''id'', PStr (bc_property_id budget_request))]
      (properties budget_db) = Some (stored 9 (Property_dict budget_room))"
    by code_simp
  moreover have "Property_parse (stored 9 (Property_dict budget_room)) = Some budget_room"
    by code_simp
  moreover have "days_between (bc_check_out budget_request) (bc_check_in budget_request) = 3"
    by code_simp
  moreover have "fst (create_booking example_rx example_env budget_db budget_request alice) =
       Inr [(''success'', PBool True), (''booking_id'', PStr ''b-3''),
            (''total_price'', PFloat (Finite (1351079888211149 / 2 ^ 52)))]"
    by code_simp
  moreover have "(1351079888211149 / 2 ^ 52 :: rat) \<noteq> 3 * p_price_per_night budget_room"
    by (simp add: budget_room_def sample_property_def tenth_def)
  ultimately show ?thesis by blast
qed

text \<open>
  C1, as the handler has it. Let the property id of the request resolve to a document
  that holds a float under \<^verbatim>\<open>price_per_night\<close>, and let the night count between the two
  dates of the request be positive. Then booking creation succeeds, and the total price it
  returns is the one it stores with the booking. For a finite price, the total is the exact
  product of night count and price whenever that product is a double, as for three nights
  at 120.0, which cost 360.0; otherwise it is a double nearest to the exact product, or
  an infinity when the product reaches \<open>2 ^ 1024 - 2 ^ 970\<close> in absolute value, and never
  NaN. An infinite price gives an infinite total, the price NaN the total NaN.
\<close>

theorem create_booking_total_price:
  assumes found: "find_one rx [(''id'', PStr (bc_property_id booking_data))] (properties s) = Some property_doc"
    and price: "map_of property_doc ''price_per_night'' = Some (PFloat price)"
    and check_in: "valid_date (bc_check_in booking_data)"
    and check_out: "valid_date (bc_check_out booking_data)"
    and nights: "nights = days_between (bc_check_out booking_data) (bc_check_in booking_data)"
    and pos: "0 < nights"
  shows "\<exists>total s'.
      create_booking rx env s booking_data current_user =
        (Inr [(''success'', PBool True), (''booking_id'', PStr (uuid4 env)),
              (''total_price'', PFloat total)], s')
      \<and> map_of (last (bookings s')) ''total_price'' = Some (PFloat total)
      \<and> (\<forall>x. price = Finite x \<longrightarrow>
            (is_double (of_int nights * x) \<longrightarrow> total = Finite (of_int nights * x))
            \<and> (\<forall>r. total = Finite r \<longrightarrow>
                  is_double r
                  \<and> (\<forall>d. is_double d \<longrightarrow> \<bar>r - of_int nights * x\<bar> \<le> \<bar>d - of_int nights * x\<bar>))
            \<and> (total = PosInf \<longleftrightarrow> 2 ^ 1024 - 2 ^ 970 \<le> of_int nights * x)
            \<and> (total = NegInf \<longleftrightarrow> of_int nights * x \<le> - (2 ^ 1024 - 2 ^ 970))
            \<and> total \<noteq> NaN)
      \<and> (price = PosInf \<longrightarrow> total = PosInf)
      \<and> (price = NegInf \<longrightarrow> total = NegInf)
      \<and> (price = NaN \<longrightarrow> total = NaN)
      \<and> (bc_check_in booking_data = Date 2025 6 1 \<and> bc_check_out booking_data = Date 2025 6 4
           \<and> price = Finite 120
         \<longrightarrow> nights = 3 \<and> total = Finite 360)"
proof -
  define total where "total = float_mul (float_of_int nights) price"
  define s' where "s' = snd (create_booking rx env s booking_data current_user)"
  from check_out check_in have "nights < 2 ^ 53"
    unfolding nights by (rule days_between_small)
  with pos have conv: "float_of_int nights = Finite (of_int nights)"
    by (intro float_of_int_exact) simp
  note st = create_booking_stores [OF found price pos [unfolded nights],
      of env current_user, folded nights, folded total_def]
  have run: "create_booking rx env s booking_data current_user =
        (Inr [(''success'', PBool True), (''booking_id'', PStr (uuid4 env)),
              (''total_price'', PFloat total)], s')"
    by (simp add: s'_def st)
  have stored: "map_of (last (bookings s')) ''total_price'' = Some (PFloat total)"
    by (simp add: s'_def st)
  have rounded: "total = round_to_double (of_int nights * x)" if "price = Finite x" for x
    by (simp add: total_def conv that)
  have exact: "total = Finite (of_int nights * x)"
    if "price = Finite x" "is_double (of_int nights * x)" for x
    unfolding rounded [OF that(1)] using that(2) by (rule round_to_double_exact)
  have nearest: "is_double r
      \<and> (\<forall>d. is_double d \<longrightarrow> \<bar>r - of_int nights * x\<bar> \<le> \<bar>d - of_int nights * x\<bar>)"
    if "price = Finite x" "total = Finite r" for x r
    using that(2) unfolding rounded [OF that(1)]
    by (auto intro: round_to_double_is_double round_to_double_nearest)
  have over: "total = PosInf \<longleftrightarrow> 2 ^ 1024 - 2 ^ 970 \<le> of_int nights * x"
    if "price = Finite x" for x
    unfolding rounded [OF that] round_to_double_PosInf_iff pow2_numeral ..
  have under: "total = NegInf \<longleftrightarrow> of_int nights * x \<le> - (2 ^ 1024 - 2 ^ 970)"
    if "price = Finite x" for x
    unfolding rounded [OF that] round_to_double_NegInf_iff pow2_numeral ..
  have nan: "total \<noteq> NaN" if "price = Finite x" for x
    by (simp add: rounded [OF that])
  have finite: "(is_double (of_int nights * x) \<longrightarrow> total = Finite (of_int nights * x))
      \<and> (\<forall>r. total = Finite r \<longrightarrow>
            is_double r
            \<and> (\<forall>d. is_double d \<longrightarrow> \<bar>r - of_int nights * x\<bar> \<le> \<bar>d - of_int nights * x\<bar>))
      \<and> (total = PosInf \<longleftrightarrow> 2 ^ 1024 - 2 ^ 970 \<le> of_int nights * x)
      \<and> (total = NegInf \<longleftrightarrow> of_int nights * x \<le> - (2 ^ 1024 - 2 ^ 970))
      \<and> total \<noteq> NaN"
    if "price = Finite x" for x
    using exact [OF that] nearest [OF that] over [OF that] under [OF that] nan [OF that]
    by blast
  from pos have special: "price = PosInf \<longrightarrow> total = PosInf" "price = NegInf \<longrightarrow> total = NegInf"
    "price = NaN \<longrightarrow> total = NaN"
    by (simp_all add: total_def conv)
  have inst: "nights = 3 \<and> total = Finite 360"
    if "bc_check_in booking_data = Date 2025 6 1" "bc_check_out booking_data = Date 2025 6 4"
      "price = Finite 120"
  proof -
    have "days_between (Date 2025 6 4) (Date 2025 6 1) = 3"
      by (simp add: days_between_def toordinal_def days_before_year_def days_before_month_def
          DAYS_IN_MONTH_def is_leap_def)
    with that nights have n: "nights = 3" by simp
    have "is_double (of_int nights * 120)"
      unfolding n by (rule is_doubleI [of _ 360 0]) (simp_all add: pow2_def)
    with that(3) have "total = Finite (of_int nights * 120)" by (rule exact)
    with n show ?thesis by simp
  qed
  from run stored finite special inst show ?thesis
    by blast
qed

theorem create_booking_total_price_witness:
  "find_one example_rx [(''id'', PStr (bc_property_id example_request))] (properties example_db)
     = Some (stored 1 (Property_dict berlin))
   \<and> map_of (stored 1 (Property_dict berlin)) ''price_per_night'' = Some (PFloat (Finite 120))
   \<and> valid_date (bc_check_in example_request)
   \<and> valid_date (bc_check_out example_request)
   \<and> 0 < days_between (bc_check_out example_request) (bc_check_in example_request)
   \<and> is_double (of_int (days_between (bc_check_out example_request) (bc_check_in example_request))
        * 120)
   \<and> fst (create_booking example_rx example_env example_db example_request alice) =
       Inr [(''success'', PBool True), (''booking_id'', PStr ''b-3''),
            (''total_price'', PFloat (Finite 360))]"
proof -
  let ?nights = "days_between (bc_check_out example_request) (bc_check_in example_request)"
  have h1: "find_one example_rx [(''id'', PStr (bc_property_id example_request))]
      (properties example_db) = Some (stored 1 (Property_dict berlin))"
    by code_simp
  have h2: "map_of (stored 1 (Property_dict berlin)) ''price_per_night''
      = Some (PFloat (Finite 120))"
    by code_simp
  have h3: "valid_date (bc_check_in example_request)"
    by code_simp
  have h4: "valid_date (bc_check_out example_request)"
    by code_simp
  have n: "?nights = 3"
    by code_simp
  then have h5: "0 < ?nights"
    by simp
  have e: "uuid4 example_env = ''b-3''"
    by (simp add: example_env_def)
  have h6: "is_double (of_int ?nights * 120)"
    unfolding n by (rule is_doubleI [of _ 360 0]) (simp_all add: pow2_def)
  from create_booking_total_price [OF h1 h2 h3 h4 refl h5, of example_env alice]
  obtain total s' where run: "create_booking example_rx example_env example_db example_request alice =
        (Inr [(''success'', PBool True), (''booking_id'', PStr (uuid4 example_env)),
              (''total_price'', PFloat total)], s')"
    and ex: "\<forall>x. Finite 120 = Finite x \<longrightarrow>
        (is_double (of_int ?nights * x) \<longrightarrow> total = Finite (of_int ?nights * x))"
    by blast
  from ex h6 have "total = Finite (of_int ?nights * 120)"
    by simp
  then have "total = Finite 360"
    by (simp add: n)
  with run have "fst (create_booking example_rx example_env example_db example_request alice) =
       Inr [(''success'', PBool True), (''booking_id'', PStr ''b-3''),
            (''total_price'', PFloat (Finite 360))]"
    by (simp add: e)
  with h1 h2 h3 h4 h5 h6 show ?thesis by blast
qed

text \<open>
  C2. Booking creation fails with status 404 (``Property not found'') exactly when no
  document of the property collection has the requested id, whatever the dates are: the
  lookup comes before the date check. When the id resolves to a valid property, a night
  count of zero or less is rejected with status 400 (``Invalid date range''), and a
  positive night count is accepted: the guest count, the position of the dates in time and
  the bookings already in the store play no part.
\<close>

theorem create_booking_rejections:
  "(fst (create_booking rx env s booking_data current_user) =
      Inl (HTTPException 404 ''Property not found'')
    \<longleftrightarrow> (\<forall>d\<in>set (properties s). map_of d ''id'' \<noteq> Some (PStr (bc_property_id booking_data))))
   \<and> (\<forall>property_doc p.
        find_one rx [(''id'', PStr (bc_property_id booking_data))] (properties s) = Some property_doc
        \<and> Property_parse property_doc = Some p
        \<longrightarrow> (days_between (bc_check_out booking_data) (bc_check_in booking_data) \<le> 0
              \<longrightarrow> fst (create_booking rx env s booking_data current_user) =
                    Inl (HTTPException 400 ''Invalid date range''))
          \<and> (0 < days_between (bc_check_out booking_data) (bc_check_in booking_data)
              \<longrightarrow> (\<exists>response. fst (create_booking rx env s booking_data current_user) =
                    Inr response)))"
proof (intro conjI allI impI)
  let ?flt = "[(''id'', PStr (bc_property_id booking_data))]"
  have none: "find_one rx ?flt (properties s) = None \<longleftrightarrow>
      (\<forall>d\<in>set (properties s). map_of d ''id'' \<noteq> Some (PStr (bc_property_id booking_data)))"
    by (simp add: find_one_None_iff matches_field_str)
  show "fst (create_booking rx env s booking_data current_user) =
      Inl (HTTPException 404 ''Property not found'')
    \<longleftrightarrow> (\<forall>d\<in>set (properties s). map_of d ''id'' \<noteq> Some (PStr (bc_property_id booking_data)))"
  proof (cases "find_one rx ?flt (properties s)")
    case None
    with none show ?thesis by (simp add: create_booking_not_found)
  next
    case (Some property_doc)
    with none create_booking_found_not_404 [OF Some] show ?thesis by simp
  qed
next
  fix property_doc p
  assume h: "find_one rx [(''id'', PStr (bc_property_id booking_data))] (properties s) = Some property_doc
        \<and> Property_parse property_doc = Some p"
  {
    assume "days_between (bc_check_out booking_data) (bc_check_in booking_data) \<le> 0"
    with h show "fst (create_booking rx env s booking_data current_user) =
        Inl (HTTPException 400 ''Invalid date range'')"
      by (simp add: create_booking_invalid_range)
  next
    assume "0 < days_between (bc_check_out booking_data) (bc_check_in booking_data)"
    with h show "\<exists>response. fst (create_booking rx env s booking_data current_user) = Inr response"
      by (simp add: create_booking_stores [OF _ Property_parse_price])
  }
qed


theorem create_booking_rejections_witness:
  "fst (create_booking example_rx example_env example_db
          (example_request\<lparr>bc_property_id := ''p-gone''\<rparr>) alice) =
     Inl (HTTPException 404 ''Property not found'')
   \<and> find_one example_rx [(''id'', PStr (bc_property_id example_request))]
         (properties example_db) = Some (stored 1 (Property_dict berlin))
   \<and> Property_parse (stored 1 (Property_dict berlin)) = Some berlin
   \<and> fst (create_booking example_rx example_env example_db
          (example_request\<lparr>bc_check_out := Date 2025 6 1\<rparr>) alice) =
     Inl (HTTPException 400 ''Invalid date range'')
   \<and> (\<exists>response.
        fst (create_booking example_rx example_env example_db example_request alice) =
        Inr response)"
proof -
  let ?gone = "example_request\<lparr>bc_property_id := ''p-gone''\<rparr>"
  let ?same_day = "example_request\<lparr>bc_check_out := Date 2025 6 1\<rparr>"
  have absent: "\<forall>d\<in>set (properties example_db).
      map_of d ''id'' \<noteq> Some (PStr (bc_property_id ?gone))"
    by code_simp
  have h1: "find_one example_rx [(''id'', PStr (bc_property_id example_request))]
      (properties example_db) = Some (stored 1 (Property_dict berlin))"
    by code_simp
  have h1': "find_one example_rx [(''id'', PStr (bc_property_id ?same_day))]
      (properties example_db) = Some (stored 1 (Property_dict berlin))"
    by code_simp
  have h2: "Property_parse (stored 1 (Property_dict berlin)) = Some berlin"
    by code_simp
  have d0: "days_between (bc_check_out ?same_day) (bc_check_in ?same_day) \<le> 0"
    by code_simp
  have d3: "0 < days_between (bc_check_out example_request) (bc_check_in example_request)"
    by code_simp
  from create_booking_rejections [of example_rx example_env example_db ?gone alice] absent
  have a: "fst (create_booking example_rx example_env example_db ?gone alice) =
      Inl (HTTPException 404 ''Property not found'')"
    by blast
  from create_booking_rejections [of example_rx example_env example_db ?same_day alice] h1' h2 d0
  have b: "fst (create_booking example_rx example_env example_db ?same_day alice) =
      Inl (HTTPException 400 ''Invalid date range'')"
    by blast
  from create_booking_rejections [of example_rx example_env example_db example_request alice] h1 h2 d3
  have c: "\<exists>response.
      fst (create_booking example_rx example_env example_db example_request alice) = Inr response"
    by blast
  from a h1 h2 b c show ?thesis by blast
qed

text \<open>
  C7. Booking creation does not look at the bookings in the store: where the store already
  holds a confirmed booking of the same property, whatever its dates (so also the same or
  overlapping ones), a request with a positive night count succeeds and appends one more
  confirmed booking of that property for the requested dates.
\<close>

theorem create_booking_no_overlap_check:
  assumes found: "find_one rx [(''id'', PStr (bc_property_id booking_data))] (properties s) = Some property_doc"
    and valid: "Property_parse property_doc = Some p"
    and days: "0 < days_between (bc_check_out booking_data) (bc_check_in booking_data)"
    and existing: "existing \<in> set (bookings s)"
    and same_property: "map_of existing ''property_id'' = Some (PStr (bc_property_id booking_data))"
    and confirmed: "map_of existing ''status'' = Some (PStr ''confirmed'')"
  shows "\<exists>response new.
      create_booking rx env s booking_data current_user = (Inr response, s\<lparr>bookings := bookings s @ [new]\<rparr>)
      \<and> map_of new ''property_id'' = Some (PStr (bc_property_id booking_data))
      \<and> map_of new ''check_in'' = Some (PStr (isoformat (bc_check_in booking_data)))
      \<and> map_of new ''check_out'' = Some (PStr (isoformat (bc_check_out booking_data)))
      \<and> map_of new ''status'' = Some (PStr ''confirmed'')"
  by (subst create_booking_stores [OF found Property_parse_price [OF valid] days],
      intro exI conjI, rule refl) simp_all

theorem create_booking_no_overlap_check_witness:
  "find_one example_rx [(''id'', PStr (bc_property_id example_request))]
         (properties example_db) = Some (stored 1 (Property_dict berlin))
   \<and> Property_parse (stored 1 (Property_dict berlin)) = Some berlin
   \<and> 0 < days_between (bc_check_out example_request) (bc_check_in example_request)
   \<and> stored 5 (sample_booking ''b-1'' ''u-alice'' ''p-berlin'') \<in> set (bookings example_db)
   \<and> map_of (stored 5 (sample_booking ''b-1'' ''u-alice'' ''p-berlin'')) ''property_id'' =
       Some (PStr (bc_property_id example_request))
   \<and> map_of (stored 5 (sample_booking ''b-1'' ''u-alice'' ''p-berlin'')) ''check_in'' =
       Some (PStr (isoformat (bc_check_in example_request)))
   \<and> map_of (stored 5 (sample_booking ''b-1'' ''u-alice'' ''p-berlin'')) ''check_out'' =
       Some (PStr (isoformat (bc_check_out example_request)))
   \<and> map_of (stored 5 (sample_booking ''b-1'' ''u-alice'' ''p-berlin'')) ''status'' =
       Some (PStr ''confirmed'')
   \<and> (\<exists>response new.
        create_booking example_rx example_env example_db example_request bob =
          (Inr response, example_db\<lparr>bookings := bookings example_db @ [new]\<rparr>)
        \<and> map_of new ''property_id'' = Some (PStr ''p-berlin'')
        \<and> map_of new ''check_in'' = Some (PStr ''2025-06-01'')
        \<and> map_of new ''check_out'' = Some (PStr ''2025-06-04''))"
proof -
  let ?b = "stored 5 (sample_booking ''b-1'' ''u-alice'' ''p-berlin'')"
  have h1: "find_one example_rx [(''id'', PStr (bc_property_id example_request))]
      (properties example_db) = Some (stored 1 (Property_dict berlin))"
    by code_simp
  have h2: "Property_parse (stored 1 (Property_dict berlin)) = Some berlin"
    by code_simp
  have h3: "0 < days_between (bc_check_out example_request) (bc_check_in example_request)"
    by code_simp
  have h4: "?b \<in> set (bookings example_db)"
    by (simp add: example_db_def)
  have h5: "map_of ?b ''property_id'' = Some (PStr (bc_property_id example_request))"
    by (simp add: stored_def sample_booking_def example_request_def)
  have h6: "map_of ?b ''status'' = Some (PStr ''confirmed'')"
    by (simp add: stored_def sample_booking_def)
  have h7: "map_of ?b ''check_in'' = Some (PStr (isoformat (bc_check_in example_request)))"
    "map_of ?b ''check_out'' = Some (PStr (isoformat (bc_check_out example_request)))"
    by (simp_all add: stored_def sample_booking_def example_request_def isoformat_def digit_def)
  have e: "bc_property_id example_request = ''p-berlin''"
    "isoformat (bc_check_in example_request) = ''2025-06-01''"
    "isoformat (bc_check_out example_request) = ''2025-06-04''"
    by (simp_all add: example_request_def isoformat_def digit_def)
  from create_booking_no_overlap_check [OF h1 h2 h3 h4 h5 h6, of example_env bob]
  have "\<exists>response new.
        create_booking example_rx example_env example_db example_request bob =
          (Inr response, example_db\<lparr>bookings := bookings example_db @ [new]\<rparr>)
        \<and> map_of new ''property_id'' = Some (PStr ''p-berlin'')
        \<and> map_of new ''check_in'' = Some (PStr ''2025-06-01'')
        \<and> map_of new ''check_out'' = Some (PStr ''2025-06-04'')"
    unfolding e by blast
  with h1 h2 h3 h4 h5 h6 h7 show ?thesis by blast
qed

section \<open>Booking deletion\<close>

lemma delete_booking_not_found:
  assumes "find_one rx [(''id'', PStr booking_id)] (bookings s) = None"
  shows "delete_booking rx s booking_id current_user =
    (Inl (HTTPException 404 ''Booking not found''), s)"
  using assms by (simp add: delete_booking_def)

lemma delete_booking_forbidden:
  assumes "find_one rx [(''id'', PStr booking_id)] (bookings s) = Some booking"
    and "map_of booking ''user_id'' = Some owner"
    and "owner \<noteq> PStr (u_id current_user)"
    and "u_email current_user \<noteq> ADMIN_EMAIL"
  shows "delete_booking rx s booking_id current_user =
    (Inl (HTTPException 403 ''Not authorized to delete this booking''), s)"
  using assms find_one_id_nonempty [OF assms(1)] by (simp add: delete_booking_def)

lemma delete_one_count:
  "fst (delete_one rx flt coll) = (if find_one rx flt coll = None then 0 else 1)"
  by (induction coll) (auto simp: find_one_def find_def split: list.splits)

lemma delete_one_removes:
  "find_one rx flt coll = Some d \<Longrightarrow> snd (delete_one rx flt coll) = remove1 d coll"
proof (induction coll)
  case Nil
  then show ?case by (simp add: find_one_def find_def)
next
  case (Cons c coll)
  show ?case
  proof (cases "matches rx flt c")
    case True
    with Cons.prems show ?thesis by (simp add: find_one_def find_def)
  next
    case False
    with Cons.prems have rest: "find_one rx flt coll = Some d"
      by (simp add: find_one_def find_def)
    then have "matches rx flt d" by (rule find_one_SomeD(2))
    with False have "c \<noteq> d" by auto
    with False Cons.IH [OF rest] show ?thesis by simp
  qed
qed

lemma delete_booking_allowed:
  assumes found: "find_one rx [(''id'', PStr booking_id)] (bookings s) = Some booking"
    and owner: "map_of booking ''user_id'' = Some owner"
    and allowed: "owner = PStr (u_id current_user) \<or> u_email current_user = ADMIN_EMAIL"
  shows "delete_booking rx s booking_id current_user =
    (Inr [(''success'', PBool True), (''message'', PStr ''Booking deleted successfully'')],
     s\<lparr>bookings := remove1 booking (bookings s)\<rparr>)"
  using assms find_one_id_nonempty [OF found]
  by (auto simp: delete_booking_def Let_def delete_one_count delete_one_removes)

text \<open>
  C4. When the booking that the id resolves to belongs to somebody else and the caller is
  not the administrator, \<open>delete_booking\<close> fails with status 403 and the store it leaves
  is the store it was given; when no booking has the id, it fails with status 404 and the
  store is unchanged as well.
\<close>

theorem delete_booking_refused:
  "(\<forall>booking owner.
      find_one rx [(''id'', PStr booking_id)] (bookings s) = Some booking
      \<and> map_of booking ''user_id'' = Some owner
      \<and> owner \<noteq> PStr (u_id current_user) \<and> u_email current_user \<noteq> ADMIN_EMAIL
      \<longrightarrow> delete_booking rx s booking_id current_user =
            (Inl (HTTPException 403 ''Not authorized to delete this booking''), s))
   \<and> ((\<forall>d\<in>set (bookings s). map_of d ''id'' \<noteq> Some (PStr booking_id))
      \<longrightarrow> delete_booking rx s booking_id current_user =
            (Inl (HTTPException 404 ''Booking not found''), s))"
proof (intro conjI allI impI)
  fix booking owner
  assume "find_one rx [(''id'', PStr booking_id)] (bookings s) = Some booking
      \<and> map_of booking ''user_id'' = Some owner
      \<and> owner \<noteq> PStr (u_id current_user) \<and> u_email current_user \<noteq> ADMIN_EMAIL"
  then show "delete_booking rx s booking_id current_user =
      (Inl (HTTPException 403 ''Not authorized to delete this booking''), s)"
    by (blast intro: delete_booking_forbidden)
next
  assume "\<forall>d\<in>set (bookings s). map_of d ''id'' \<noteq> Some (PStr booking_id)"
  then have "find_one rx [(''id'', PStr booking_id)] (bookings s) = None"
    by (simp add: find_one_None_iff matches_field_str)
  then show "delete_booking rx s booking_id current_user =
      (Inl (HTTPException 404 ''Booking not found''), s)"
    by (rule delete_booking_not_found)
qed

theorem delete_booking_refused_witness:
  "find_one example_rx [(''id'', PStr ''b-1'')] (bookings example_db) =
     Some (stored 5 (sample_booking ''b-1'' ''u-alice'' ''p-berlin''))
   \<and> map_of (stored 5 (sample_booking ''b-1'' ''u-alice'' ''p-berlin'')) ''user_id'' =
       Some (PStr ''u-alice'')
   \<and> PStr ''u-alice'' \<noteq> PStr (u_id bob) \<and> u_email bob \<noteq> ADMIN_EMAIL
   \<and> delete_booking example_rx example_db ''b-1'' bob =
       (Inl (HTTPException 403 ''Not authorized to delete this booking''), example_db)
   \<and> list_all (\<lambda>d. map_of d ''id'' \<noteq> Some (PStr ''b-9'')) (bookings example_db)
   \<and> delete_booking example_rx example_db ''b-9'' bob =
       (Inl (HTTPException 404 ''Booking not found''), example_db)"
proof -
  let ?b = "stored 5 (sample_booking ''b-1'' ''u-alice'' ''p-berlin'')"
  have h1: "find_one example_rx [(''id'', PStr ''b-1'')] (bookings example_db) = Some ?b"
    by code_simp
  have h2: "map_of ?b ''user_id'' = Some (PStr ''u-alice'')"
    by (simp add: stored_def sample_booking_def)
  have h3: "PStr ''u-alice'' \<noteq> PStr (u_id bob)" "u_email bob \<noteq> ADMIN_EMAIL"
    by (simp_all add: bob_def ADMIN_EMAIL_def)
  have h4: "\<forall>d\<in>set (bookings example_db). map_of d ''id'' \<noteq> Some (PStr ''b-9'')"
    by code_simp
  from delete_booking_refused [of example_rx "''b-1''" example_db bob] h1 h2 h3
  have a: "delete_booking example_rx example_db ''b-1'' bob =
      (Inl (HTTPException 403 ''Not authorized to delete this booking''), example_db)"
    by blast
  from delete_booking_refused [of example_rx "''b-9''" example_db bob] h4
  have b: "delete_booking example_rx example_db ''b-9'' bob =
      (Inl (HTTPException 404 ''Booking not found''), example_db)"
    by blast
  from h4 have "list_all (\<lambda>d. map_of d ''id'' \<noteq> Some (PStr ''b-9'')) (bookings example_db)"
    by (simp add: list_all_iff)
  with h1 h2 h3 a b show ?thesis by blast
qed

section \<open>Booking list\<close>

lemma map_of_strip_id:
  "map_of (strip_id d) k = (if k = ''_id'' then None else map_of d k)"
  by (auto simp: strip_id_def delete_conv)

lemma booking_with_property_Inr:
  "booking_with_property rx props b = Inr r \<longleftrightarrow>
     (\<exists>pid. map_of b ''property_id'' = Some pid
        \<and> r = AList.update ''property'' (join_property rx props pid) (strip_id b))"
  by (auto simp: booking_with_property_def map_of_strip_id split: option.splits)

lemma booking_with_property_fields:
  assumes "booking_with_property rx props b = Inr r"
  shows "map_of r k = (if k = ''property'' then map_of r ''property''
                       else if k = ''_id'' then None else map_of b k)"
  using assms by (auto simp: booking_with_property_Inr update_conv map_of_strip_id)

lemma join_property_no_id:
  "join_property rx props pid = PDict pd \<Longrightarrow> map_of pd ''_id'' = None"
  by (auto simp: join_property_def map_of_strip_id split: option.splits if_splits)


lemma loop_Inr_iff:
  "get_user_bookings_loop rx props bs acc = Inr res \<longleftrightarrow>
     (\<exists>rs. res = acc @ rs \<and> list_all2 (\<lambda>b r. booking_with_property rx props b = Inr r) bs rs)"
proof (induction bs arbitrary: acc)
  case Nil
  then show ?case by auto
next
  case (Cons b bs)
  show ?case
  proof (cases "booking_with_property rx props b")
    case (Inl e)
    then show ?thesis by (auto simp: list_all2_Cons1)
  next
    case (Inr r)
    then show ?thesis by (auto simp: Cons.IH list_all2_Cons1)
  qed
qed


lemma found_bookings_eq:
  "found_bookings rx s current_user =
     (if u_email current_user = ADMIN_EMAIL then take 1000 (bookings s)
      else take 100 (filter (\<lambda>b. map_of b ''user_id'' = Some (PStr (u_id current_user)))
             (bookings s)))"
proof -
  have "matches rx [(''user_id'', PStr (u_id current_user))] =
      (\<lambda>b. map_of b ''user_id'' = Some (PStr (u_id current_user)))"
    by (rule ext) (simp add: matches_field_str)
  then show ?thesis
    by (simp add: found_bookings_def to_list_def find_def matches_empty)
qed

lemma found_bookings_subset: "set (found_bookings rx s current_user) \<subseteq> set (bookings s)"
  by (auto simp: found_bookings_eq dest: in_set_takeD)

lemma get_user_bookings_Inr_iff:
  "get_user_bookings rx s current_user = Inr res \<longleftrightarrow>
     list_all2 (\<lambda>b r. booking_with_property rx (properties s) b = Inr r)
       (found_bookings rx s current_user) res"
  by (simp add: get_user_bookings_def loop_Inr_iff)



lemma list_all2_in_set_right:
  assumes "list_all2 R xs ys" and "y \<in> set ys"
  shows "\<exists>x\<in>set xs. R x y"
  using assms by (induction rule: list_all2_induct) auto


lemma booking_number_below_1000:
  assumes "n < 1000"
  shows "''b1000'' \<noteq> booking_number n"
proof -
  from assms have "int n div 1000 = 0" by simp
  then have "digit (int n div 1000) = CHR ''0''" by (simp add: digit_def)
  then show ?thesis by (simp add: booking_number_def)
qed

lemma listed_booking_id: "map_of (listed_booking n) ''id'' = Some (PStr (booking_number n))"
  by (simp add: listed_booking_def sample_booking_def)

lemma numbered_booking_listed:
  "booking_with_property example_rx (properties crowded_db) (numbered_booking n) =
     Inr (listed_booking n)"
proof -
  have "join_property example_rx (properties example_db) (PStr ''p-berlin'') =
      PDict (Property_dict berlin)"
    by code_simp
  moreover have "properties crowded_db = properties example_db"
    by (simp add: crowded_db_def)
  ultimately show ?thesis
    by (simp add: booking_with_property_def strip_id_def numbered_booking_def listed_booking_def
        stored_def sample_booking_def)
qed

lemma crowded_db_listed:
  assumes "found_bookings example_rx crowded_db current_user = map numbered_booking [0..<k]"
  shows "get_user_bookings example_rx crowded_db current_user = Inr (map listed_booking [0..<k])"
  unfolding get_user_bookings_Inr_iff assms
  by (simp add: list_all2_map1 list_all2_map2 list_all2_same numbered_booking_listed)

text \<open>
  C3 says that the administrator is given every booking of the store, and anybody else
  exactly the bookings that carry the caller's id as \<^verbatim>\<open>user_id\<close>. The handler announces the
  same for the administrator (\<^verbatim>\<open># For admin users, return all bookings\<close>), but it reads the
  collection with \<^verbatim>\<open>to_list(1000)\<close>, and with \<^verbatim>\<open>to_list(100)\<close> for anybody else. In the
  store of 1001 bookings, which all belong to one user, the administrator is given the
  records of the bookings \<^verbatim>\<open>b0000\<close> to \<^verbatim>\<open>b0999\<close>: the booking \<^verbatim>\<open>b1000\<close> is in the store and
  not in the list. The user who owns the 1001 bookings is given the first 100 of them.
\<close>

theorem get_user_bookings_truncated:
  "u_email admin = ADMIN_EMAIL
   \<and> u_email alice \<noteq> ADMIN_EMAIL
   \<and> length (bookings crowded_db) = 1001
   \<and> list_all (\<lambda>b. map_of b ''user_id'' = Some (PStr (u_id alice))) (bookings crowded_db)
   \<and> numbered_booking 1000 \<in> set (bookings crowded_db)
   \<and> map_of (numbered_booking 1000) ''id'' = Some (PStr ''b1000'')
   \<and> get_user_bookings example_rx crowded_db admin = Inr (map listed_booking [0..<1000])
   \<and> Some (PStr ''b1000'') \<notin> set (map (\<lambda>r. map_of r ''id'') (map listed_booking [0..<1000]))
   \<and> get_user_bookings example_rx crowded_db alice = Inr (map listed_booking [0..<100])"
proof -
  have adm: "u_email admin = ADMIN_EMAIL" and usr: "u_email alice \<noteq> ADMIN_EMAIL"
    by (simp_all add: admin_def alice_def ADMIN_EMAIL_def)
  have bs: "bookings crowded_db = map numbered_booking [0..<1001]"
    by (simp add: crowded_db_def)
  have len: "length (bookings crowded_db) = 1001"
    by (simp add: bs)
  have own: "map_of (numbered_booking n) ''user_id'' = Some (PStr (u_id alice))" for n
    by (simp add: numbered_booking_def stored_def sample_booking_def alice_def)
  then have owned: "list_all (\<lambda>b. map_of b ''user_id'' = Some (PStr (u_id alice)))
      (bookings crowded_db)"
    by (simp add: bs list_all_iff)
  have last_in: "numbered_booking 1000 \<in> set (bookings crowded_db)"
    unfolding bs by (rule imageI [of 1000 "set [0..<1001]" numbered_booking, folded set_map]) simp
  have id1000: "map_of (numbered_booking 1000) ''id'' = Some (PStr ''b1000'')"
    by (simp add: numbered_booking_def stored_def sample_booking_def booking_number_def digit_def)
  have "found_bookings example_rx crowded_db admin = map numbered_booking [0..<1000]"
    by (simp add: found_bookings_eq adm bs take_map)
  then have all: "get_user_bookings example_rx crowded_db admin =
      Inr (map listed_booking [0..<1000])"
    by (rule crowded_db_listed)
  have missing: "Some (PStr ''b1000'')
      \<notin> set (map (\<lambda>r. map_of r ''id'') (map listed_booking [0..<1000]))"
    by (auto simp: listed_booking_id dest: booking_number_below_1000)
  have "filter (\<lambda>b. map_of b ''user_id'' = Some (PStr (u_id alice))) (bookings crowded_db)
      = bookings crowded_db"
    using owned by (simp add: list_all_iff)
  then have "found_bookings example_rx crowded_db alice = map numbered_booking [0..<100]"
    by (simp add: found_bookings_eq usr) (simp add: bs take_map)
  then have mine: "get_user_bookings example_rx crowded_db alice =
      Inr (map listed_booking [0..<100])"
    by (rule crowded_db_listed)
  from adm usr len owned last_in id1000 all missing mine show ?thesis
    by blast
qed



lemma delete_booking_response:
  assumes "delete_booking rx s booking_id current_user = (Inr response, s')"
  shows "response = [(''success'', PBool True), (''message'', PStr ''Booking deleted successfully'')]"
  using assms
  by (auto simp: delete_booking_def Let_def split: option.splits if_splits)

text \<open>
  C9. No record that the list operation returns has the key \<^verbatim>\<open>_id\<close>, the joined property
  document under \<^verbatim>\<open>property\<close> has none either, and the \<^verbatim>\<open>id\<close> of a returned record is the
  \<^verbatim>\<open>id\<close> of a booking of the store. A successful delete returns the two fields \<^verbatim>\<open>success\<close>
  and \<^verbatim>\<open>message\<close> and nothing of the record.
\<close>

theorem no_store_identity_returned:
  "(\<forall>res. get_user_bookings rx s current_user = Inr res \<longrightarrow>
      (\<forall>r\<in>set res.
         map_of r ''_id'' = None
         \<and> (\<forall>property_doc. map_of r ''property'' = Some (PDict property_doc)
               \<longrightarrow> map_of property_doc ''_id'' = None)
         \<and> (\<exists>b\<in>set (bookings s). map_of r ''id'' = map_of b ''id'')))
   \<and> (\<forall>response s'. delete_booking rx s booking_id current_user = (Inr response, s') \<longrightarrow>
        response = [(''success'', PBool True), (''message'', PStr ''Booking deleted successfully'')]
        \<and> map_of response ''_id'' = None)"
proof (intro conjI allI impI ballI)
  fix res r
  assume res: "get_user_bookings rx s current_user = Inr res" and r: "r \<in> set res"
  from res have "list_all2 (\<lambda>b r. booking_with_property rx (properties s) b = Inr r)
      (found_bookings rx s current_user) res"
    by (simp add: get_user_bookings_Inr_iff)
  from list_all2_in_set_right [OF this r] obtain b
    where b: "b \<in> set (found_bookings rx s current_user)"
      and br: "booking_with_property rx (properties s) b = Inr r" by blast
  from booking_with_property_fields [OF br, of "''_id''"]
  show "map_of r ''_id'' = None" by simp
  from br obtain pid where
    rdef: "r = AList.update ''property'' (join_property rx (properties s) pid) (strip_id b)"
    by (auto simp: booking_with_property_Inr)
  {
    fix property_doc
    assume "map_of r ''property'' = Some (PDict property_doc)"
    with rdef have "join_property rx (properties s) pid = PDict property_doc"
      by (simp add: update_conv)
    then show "map_of property_doc ''_id'' = None" by (rule join_property_no_id)
  }
  from booking_with_property_fields [OF br, of "''id''"]
  have "map_of r ''id'' = map_of b ''id''" by simp
  with b found_bookings_subset [of rx s current_user]
  show "\<exists>b\<in>set (bookings s). map_of r ''id'' = map_of b ''id''" by blast
next
  fix response s'
  assume d: "delete_booking rx s booking_id current_user = (Inr response, s')"
  from delete_booking_response [OF d]
  show "response = [(''success'', PBool True), (''message'', PStr ''Booking deleted successfully'')]" .
  then show "map_of response ''_id'' = None" by simp
qed

theorem no_store_identity_returned_witness:
  "get_user_bookings example_rx example_db alice =
     Inr [AList.update ''property'' (PDict (Property_dict berlin))
            (sample_booking ''b-1'' ''u-alice'' ''p-berlin'')]
   \<and> map_of (stored 5 (sample_booking ''b-1'' ''u-alice'' ''p-berlin'')) ''_id'' = Some (PObjectId 5)
   \<and> map_of (AList.update ''property'' (PDict (Property_dict berlin))
            (sample_booking ''b-1'' ''u-alice'' ''p-berlin'')) ''_id'' = None
   \<and> map_of (AList.update ''property'' (PDict (Property_dict berlin))
            (sample_booking ''b-1'' ''u-alice'' ''p-berlin'')) ''property'' =
       Some (PDict (Property_dict berlin))
   \<and> map_of (Property_dict berlin) ''_id'' = None
   \<and> (\<exists>s'. delete_booking example_rx example_db ''b-1'' alice =
        (Inr [(''success'', PBool True), (''message'', PStr ''Booking deleted successfully'')], s'))"
proof -
  let ?r = "AList.update ''property'' (PDict (Property_dict berlin))
            (sample_booking ''b-1'' ''u-alice'' ''p-berlin'')"
  have run: "get_user_bookings example_rx example_db alice = Inr [?r]"
    by code_simp
  have stored_id: "map_of (stored 5 (sample_booking ''b-1'' ''u-alice'' ''p-berlin'')) ''_id'' =
      Some (PObjectId 5)"
    by (simp add: stored_def)
  have joined: "map_of ?r ''property'' = Some (PDict (Property_dict berlin))"
    by (simp add: update_conv)
  have "fst (delete_booking example_rx example_db ''b-1'' alice) =
      Inr [(''success'', PBool True), (''message'', PStr ''Booking deleted successfully'')]"
    by code_simp
  then obtain s' where deleted: "delete_booking example_rx example_db ''b-1'' alice =
      (Inr [(''success'', PBool True), (''message'', PStr ''Booking deleted successfully'')], s')"
    by (cases "delete_booking example_rx example_db ''b-1'' alice") auto
  note inst = no_store_identity_returned [of example_rx example_db alice "''b-1''"]
  from inst run have a: "map_of ?r ''_id'' = None" by simp
  from inst run joined have b: "map_of (Property_dict berlin) ''_id'' = None" by simp
  from inst deleted have c: "\<exists>s'. delete_booking example_rx example_db ''b-1'' alice =
        (Inr [(''success'', PBool True), (''message'', PStr ''Booking deleted successfully'')], s')"
    by blast
  from run stored_id a joined b c show ?thesis by blast
qed

section \<open>Property search\<close>

lemma price_filter':
  "filter_max_price max_price (filter_min_price min_price (filter_city city [(''available'', PBool True)])) =
   Some ([(''available'', PBool True)]
     @ (case city of None \<Rightarrow> [] | Some c \<Rightarrow> if c = [] then [] else [(''city'', regex_cond c)])
     @ (if price_cond min_price max_price = [] then []
        else [(''price_per_night'', PDict (price_cond min_price max_price))]))"
  by (simp add: filter_max_price_def filter_min_price_def filter_city_def setitem2_def regex_cond_def
      price_cond_def split: option.splits)

lemma update_fresh: "map_of al k = None \<Longrightarrow> AList.update k v al = al @ [(k, v)]"
  by (induction al) (auto split: if_splits)

lemma guests_type_filter:
  assumes "map_of f ''max_guests'' = None" and "map_of f ''property_type'' = None"
  shows "filter_property_type property_type (filter_min_guests min_guests f) =
     f @ (case min_guests of None \<Rightarrow> []
        | Some g \<Rightarrow> if g = 0 then [] else [(''max_guests'', PDict [(''$gte'', PInt g)])])
     @ (case property_type of None \<Rightarrow> []
        | Some t \<Rightarrow> if t = [] then [] else [(''property_type'', regex_cond t)])"
  using assms
  by (simp add: filter_property_type_def filter_min_guests_def regex_cond_def update_fresh
      split: option.splits)

lemma get_properties_filter:
  "get_properties rx s city min_price max_price min_guests property_type =
     (case those (map Property_parse
        (take 100 (filter (matches rx (search_filter city min_price max_price min_guests property_type))
           (properties s)))) of
        None \<Rightarrow> Inl ValidationError
      | Some ps \<Rightarrow> Inr ps)"
proof -
  let ?f = "[(''available'', PBool True)]
     @ (case city of None \<Rightarrow> [] | Some c \<Rightarrow> if c = [] then [] else [(''city'', regex_cond c)])
     @ (if price_cond min_price max_price = [] then []
        else [(''price_per_night'', PDict (price_cond min_price max_price))])"
  have fresh: "map_of ?f ''max_guests'' = None" "map_of ?f ''property_type'' = None"
    by (simp_all split: option.splits)
  show ?thesis
    unfolding get_properties_def price_filter' option.case Let_def
      guests_type_filter [OF fresh] to_list_def find_def search_filter_def
    by simp
qed


lemma matches_append: "matches rx (f @ g) d \<longleftrightarrow> matches rx f d \<and> matches rx g d"
  by (simp add: matches_def)

lemma matches_available:
  "matches rx [(''available'', PBool True)] d \<longleftrightarrow> map_of d ''available'' = Some (PBool True)"
  by (simp add: matches_def cond_holds_def)

lemma matches_regex:
  "matches rx [(k, regex_cond pat)] d \<longleftrightarrow> criterion_regex rx pat (map_of d k)"
  by (simp add: matches_def cond_holds_def regex_cond_def op_holds_def regex_options_def
      criterion_regex_def split: option.splits pyval.splits)

lemma matches_gte:
  "matches rx [(k, PDict [(''$gte'', b)])] d \<longleftrightarrow> criterion_gte b (map_of d k)"
  by (simp add: matches_def cond_holds_def op_holds_def criterion_gte_def split: option.splits)

lemma matches_lte:
  "matches rx [(k, PDict [(''$lte'', b)])] d \<longleftrightarrow> criterion_lte b (map_of d k)"
  by (simp add: matches_def cond_holds_def op_holds_def criterion_lte_def split: option.splits)

lemma matches_range:
  "matches rx [(k, PDict [(''$gte'', lo), (''$lte'', hi)])] d \<longleftrightarrow>
     criterion_gte lo (map_of d k) \<and> criterion_lte hi (map_of d k)"
  by (simp add: matches_def cond_holds_def op_holds_def criterion_gte_def criterion_lte_def
      split: option.splits)

lemma matches_price:
  "matches rx (if price_cond min_price max_price = [] then []
        else [(''price_per_night'', PDict (price_cond min_price max_price))]) d \<longleftrightarrow>
     (case min_price of None \<Rightarrow> True
      | Some lo \<Rightarrow> lo = 0 \<or> criterion_gte (PFloat (Finite lo)) (map_of d ''price_per_night''))
     \<and> (case max_price of None \<Rightarrow> True
      | Some hi \<Rightarrow> hi = 0 \<or> criterion_lte (PFloat (Finite hi)) (map_of d ''price_per_night''))"
  by (simp add: price_cond_def matches_empty matches_gte matches_lte matches_range
      split: option.splits)

lemma matches_search_filter:
  "matches rx (search_filter city min_price max_price min_guests property_type) d \<longleftrightarrow>
     search_criteria rx city min_price max_price min_guests property_type d"
  unfolding search_filter_def search_criteria_def matches_append matches_price matches_available
  by (simp add: matches_empty matches_regex matches_gte split: option.splits)


lemma those_map_Some_iff:
  "those (map f xs) = Some ys \<longleftrightarrow> list_all2 (\<lambda>x y. f x = Some y) xs ys"
proof (induction xs arbitrary: ys)
  case Nil
  then show ?case by auto
next
  case (Cons x xs)
  then show ?case
    by (cases "f x") (auto simp: list_all2_Cons1 split: option.splits)
qed

lemma those_map_total:
  assumes "\<forall>x\<in>set xs. f x \<noteq> None"
  shows "\<exists>ys. those (map f xs) = Some ys"
  using assms by (induction xs) auto

lemma get_properties_Inr_iff:
  "get_properties rx s city min_price max_price min_guests property_type = Inr ps \<longleftrightarrow>
     list_all2 (\<lambda>d p. Property_parse d = Some p)
       (take 100 (filter (search_criteria rx city min_price max_price min_guests property_type)
          (properties s))) ps"
proof -
  have "matches rx (search_filter city min_price max_price min_guests property_type) =
      search_criteria rx city min_price max_price min_guests property_type"
    by (rule ext) (rule matches_search_filter)
  then show ?thesis
    by (simp add: get_properties_filter those_map_Some_iff [symmetric] split: option.splits)
qed

lemma get_properties_returned:
  assumes "get_properties rx s city min_price max_price min_guests property_type = Inr ps"
    and "p \<in> set ps"
  shows "\<exists>d\<in>set (properties s). Property_parse d = Some p
           \<and> search_criteria rx city min_price max_price min_guests property_type d"
proof -
  from assms(1) have "list_all2 (\<lambda>d p. Property_parse d = Some p)
       (take 100 (filter (search_criteria rx city min_price max_price min_guests property_type)
          (properties s))) ps"
    by (simp add: get_properties_Inr_iff)
  from list_all2_in_set_right [OF this assms(2)] obtain d
    where d: "d \<in> set (take 100 (filter
        (search_criteria rx city min_price max_price min_guests property_type) (properties s)))"
      and parsed: "Property_parse d = Some p" by blast
  from d have "d \<in> set (filter
        (search_criteria rx city min_price max_price min_guests property_type) (properties s))"
    by (rule in_set_takeD)
  with parsed show ?thesis by auto
qed

text \<open>
  C5. Whatever criteria are given, a search returns at most 100 properties and every one of
  them has \<^verbatim>\<open>available\<close> true; and the search does return a list when every document of
  the collection is a valid \<open>Property\<close>.
\<close>

theorem get_properties_available_capped:
  "(\<forall>ps. get_properties rx s city min_price max_price min_guests property_type = Inr ps
       \<longrightarrow> length ps \<le> 100 \<and> (\<forall>p\<in>set ps. p_available p))
   \<and> ((\<forall>d\<in>set (properties s). Property_parse d \<noteq> None)
       \<longrightarrow> (\<exists>ps. get_properties rx s city min_price max_price min_guests property_type = Inr ps))"
proof (intro conjI allI impI ballI)
  fix ps
  assume run: "get_properties rx s city min_price max_price min_guests property_type = Inr ps"
  then have "list_all2 (\<lambda>d p. Property_parse d = Some p)
       (take 100 (filter (search_criteria rx city min_price max_price min_guests property_type)
          (properties s))) ps"
    by (simp add: get_properties_Inr_iff)
  then have "length ps = length (take 100 (filter
      (search_criteria rx city min_price max_price min_guests property_type) (properties s)))"
    by (auto dest: list_all2_lengthD)
  then show "length ps \<le> 100" by simp
  fix p
  assume "p \<in> set ps"
  from get_properties_returned [OF run this] obtain d
    where "Property_parse d = Some p" and "map_of d ''available'' = Some (PBool True)"
    by (auto simp: search_criteria_def)
  then show "p_available p"
    by (auto dest: Property_parse_available)
next
  assume "\<forall>d\<in>set (properties s). Property_parse d \<noteq> None"
  then have "\<forall>d\<in>set (take 100 (filter
      (search_criteria rx city min_price max_price min_guests property_type) (properties s))).
      Property_parse d \<noteq> None"
    by (auto dest: in_set_takeD)
  from those_map_total [OF this] obtain ps where "those (map Property_parse (take 100 (filter
      (search_criteria rx city min_price max_price min_guests property_type) (properties s)))) = Some ps"
    by blast
  then show "\<exists>ps. get_properties rx s city min_price max_price min_guests property_type = Inr ps"
    by (auto simp: get_properties_Inr_iff those_map_Some_iff)
qed

theorem get_properties_available_capped_witness:
  "list_all (\<lambda>d. Property_parse d \<noteq> None) (properties example_db)
   \<and> get_properties example_rx example_db None None None None None =
       Inr [berlin, munich, hamburg, frankfurt]
   \<and> length [berlin, munich, hamburg, frankfurt] \<le> 100
   \<and> list_all p_available [berlin, munich, hamburg, frankfurt]"
proof -
  have wf: "\<forall>d\<in>set (properties example_db). Property_parse d \<noteq> None"
    by code_simp
  have run: "get_properties example_rx example_db None None None None None =
       Inr [berlin, munich, hamburg, frankfurt]"
    by code_simp
  from get_properties_available_capped [of example_rx example_db None None None None None] run
  have "length [berlin, munich, hamburg, frankfurt] \<le> 100
      \<and> (\<forall>p\<in>set [berlin, munich, hamburg, frankfurt]. p_available p)"
    by blast
  then have "length [berlin, munich, hamburg, frankfurt] \<le> 100
      \<and> list_all p_available [berlin, munich, hamburg, frankfurt]"
    unfolding list_all_iff .
  moreover from wf have "list_all (\<lambda>d. Property_parse d \<noteq> None) (properties example_db)"
    unfolding list_all_iff .
  ultimately show ?thesis using run by blast
qed

text \<open>
  C6 says that with \<^verbatim>\<open>min_price\<close> and \<^verbatim>\<open>max_price\<close> both set every returned property has its
  price between the two. The handler tests its criteria for truth (\<^verbatim>\<open>if min_price:\<close>), and
  0 is not true: with both bounds set to 0 the search returns every available property,
  and the first one costs 120.
\<close>

theorem get_properties_zero_bounds_counterexample:
  "get_properties example_rx example_db None (Some 0) (Some 0) None None =
     Inr [berlin, munich, hamburg, frankfurt]
   \<and> p_price_per_night berlin = 120
   \<and> \<not> (0 \<le> p_price_per_night berlin \<and> p_price_per_night berlin \<le> 0)"
proof -
  have "get_properties example_rx example_db None (Some 0) (Some 0) None None =
     Inr [berlin, munich, hamburg, frankfurt]"
    by code_simp
  moreover have "p_price_per_night berlin = 120"
    by (simp add: berlin_def sample_property_def)
  ultimately show ?thesis by simp
qed

lemma criterion_gte_price:
  assumes "Property_parse d = Some p"
    and "criterion_gte (PFloat (Finite lo)) (map_of d ''price_per_night'')"
  shows "lo \<le> p_price_per_night p"
  using assms(2) unfolding Property_parse_price [OF assms(1)]
  by (simp add: criterion_gte_def number_of_def)

lemma criterion_lte_price:
  assumes "Property_parse d = Some p"
    and "criterion_lte (PFloat (Finite hi)) (map_of d ''price_per_night'')"
  shows "p_price_per_night p \<le> hi"
  using assms(2) unfolding Property_parse_price [OF assms(1)]
  by (simp add: criterion_lte_def number_of_def)

lemma get_properties_price_range:
  assumes run: "get_properties rx s city (Some lo) (Some hi) min_guests property_type = Inr ps"
    and nz: "lo \<noteq> 0" "hi \<noteq> 0"
    and p: "p \<in> set ps"
  shows "lo \<le> p_price_per_night p \<and> p_price_per_night p \<le> hi"
proof -
  from get_properties_returned [OF run p] obtain d
    where parsed: "Property_parse d = Some p"
      and crit: "search_criteria rx city (Some lo) (Some hi) min_guests property_type d"
    by blast
  from crit nz have "criterion_gte (PFloat (Finite lo)) (map_of d ''price_per_night'')"
    and "criterion_lte (PFloat (Finite hi)) (map_of d ''price_per_night'')"
    by (simp_all add: search_criteria_def)
  with parsed show ?thesis
    by (simp add: criterion_gte_price criterion_lte_price)
qed

text \<open>
  C6, as the handler has it. The list that a search returns is the first 100 documents of
  the collection, in its order, that satisfy \<open>search_criteria\<close>, each read as a
  \<open>Property\<close>: a criterion that is not given, or is 0 or the empty string, asks nothing, and
  the others hold together, with availability. When \<^verbatim>\<open>min_price\<close> and \<^verbatim>\<open>max_price\<close> are both
  given and not 0, every returned property has its price between them, bounds included; so
  it is for 150 and 200.
\<close>

theorem get_properties_criteria:
  assumes run: "get_properties rx s city min_price max_price min_guests property_type = Inr ps"
  shows "list_all2 (\<lambda>d p. Property_parse d = Some p)
           (take 100 (filter (search_criteria rx city min_price max_price min_guests property_type)
              (properties s))) ps
     \<and> (\<forall>lo hi. min_price = Some lo \<and> lo \<noteq> 0 \<and> max_price = Some hi \<and> hi \<noteq> 0
           \<longrightarrow> (\<forall>p\<in>set ps. lo \<le> p_price_per_night p \<and> p_price_per_night p \<le> hi))
     \<and> (min_price = Some 150 \<and> max_price = Some 200
           \<longrightarrow> (\<forall>p\<in>set ps. 150 \<le> p_price_per_night p \<and> p_price_per_night p \<le> 200))"
proof (intro conjI allI impI ballI)
  from run show "list_all2 (\<lambda>d p. Property_parse d = Some p)
           (take 100 (filter (search_criteria rx city min_price max_price min_guests property_type)
              (properties s))) ps"
    by (simp add: get_properties_Inr_iff)
next
  fix lo hi p
  assume "min_price = Some lo \<and> lo \<noteq> 0 \<and> max_price = Some hi \<and> hi \<noteq> 0" and "p \<in> set ps"
  with run show "lo \<le> p_price_per_night p" and "p_price_per_night p \<le> hi"
    using get_properties_price_range [of rx s city lo hi min_guests property_type ps p] by auto
next
  fix p
  assume "min_price = Some 150 \<and> max_price = Some 200" and "p \<in> set ps"
  with run show "150 \<le> p_price_per_night p" and "p_price_per_night p \<le> 200"
    using get_properties_price_range [of rx s city 150 200 min_guests property_type ps p] by auto
qed

theorem get_properties_criteria_witness:
  "get_properties example_rx example_db None (Some 150) (Some 200) None None = Inr [munich, hamburg]
   \<and> list_all (\<lambda>p. 150 \<le> p_price_per_night p \<and> p_price_per_night p \<le> 200) [munich, hamburg]
   \<and> p_price_per_night munich = 200 \<and> p_price_per_night hamburg = 150"
proof -
  have run: "get_properties example_rx example_db None (Some 150) (Some 200) None None =
      Inr [munich, hamburg]"
    by code_simp
  from get_properties_criteria [OF run]
  have "\<forall>p\<in>set [munich, hamburg]. 150 \<le> p_price_per_night p \<and> p_price_per_night p \<le> 200"
    by blast
  then have "list_all (\<lambda>p. 150 \<le> p_price_per_night p \<and> p_price_per_night p \<le> 200)
      [munich, hamburg]"
    unfolding list_all_iff .
  moreover have "p_price_per_night munich = 200" "p_price_per_night hamburg = 150"
    by (simp_all add: munich_def hamburg_def sample_property_def)
  ultimately show ?thesis using run by blast
qed

text \<open>
  C10. A criterion with a falsy value is the criterion left out: the search with
  \<^verbatim>\<open>min_price\<close> 0, with \<^verbatim>\<open>max_price\<close> 0, with \<^verbatim>\<open>min_guests\<close> 0, with the empty \<^verbatim>\<open>city\<close> or with
  the empty \<^verbatim>\<open>property_type\<close> is the search without that criterion, whatever the store and
  the other criteria are. In the example store the search with \<^verbatim>\<open>max_price\<close> 0 returns all
  four properties, the first at 120 a night.
\<close>

theorem get_properties_falsy_is_unset:
  "get_properties rx s city (Some 0) max_price min_guests property_type =
     get_properties rx s city None max_price min_guests property_type
   \<and> get_properties rx s city min_price (Some 0) min_guests property_type =
     get_properties rx s city min_price None min_guests property_type
   \<and> get_properties rx s city min_price max_price (Some 0) property_type =
     get_properties rx s city min_price max_price None property_type
   \<and> get_properties rx s (Some []) min_price max_price min_guests property_type =
     get_properties rx s None min_price max_price min_guests property_type
   \<and> get_properties rx s city min_price max_price min_guests (Some []) =
     get_properties rx s city min_price max_price min_guests None
   \<and> get_properties example_rx example_db None None (Some 0) None None =
     Inr [berlin, munich, hamburg, frankfurt]
   \<and> p_price_per_night berlin = 120"
proof -
  have unset: "filter_min_price (Some 0) = filter_min_price None"
    "filter_max_price (Some 0) = filter_max_price None"
    "filter_min_guests (Some 0) = filter_min_guests None"
    "filter_city (Some []) = filter_city None"
    "filter_property_type (Some []) = filter_property_type None"
    by (simp_all add: fun_eq_iff filter_city_def filter_min_price_def filter_max_price_def
        filter_min_guests_def filter_property_type_def)
  have general: "get_properties rx s city (Some 0) max_price min_guests property_type =
       get_properties rx s city None max_price min_guests property_type"
    "get_properties rx s city min_price (Some 0) min_guests property_type =
       get_properties rx s city min_price None min_guests property_type"
    "get_properties rx s city min_price max_price (Some 0) property_type =
       get_properties rx s city min_price max_price None property_type"
    "get_properties rx s (Some []) min_price max_price min_guests property_type =
       get_properties rx s None min_price max_price min_guests property_type"
    "get_properties rx s city min_price max_price min_guests (Some []) =
       get_properties rx s city min_price max_price min_guests None"
    unfolding get_properties_def unset by (rule refl)+
  have example: "get_properties example_rx example_db None None (Some 0) None None =
     Inr [berlin, munich, hamburg, frankfurt]"
    by code_simp
  have price: "p_price_per_night berlin = 120"
    by (simp add: berlin_def sample_property_def)
  from general example price show ?thesis by blast
qed

theorem get_properties_falsy_is_unset_witness:
  "get_properties example_rx example_db None None (Some 175) None None = Inr [berlin, hamburg]
   \<and> get_properties example_rx example_db None (Some 0) (Some 175) None None = Inr [berlin, hamburg]
   \<and> get_properties example_rx example_db (Some []) None (Some 175) (Some 0) (Some []) =
       Inr [berlin, hamburg]"
proof -
  have run: "get_properties example_rx example_db None None (Some 175) None None =
      Inr [berlin, hamburg]"
    by code_simp
  have a: "get_properties example_rx example_db None (Some 0) (Some 175) None None =
      Inr [berlin, hamburg]"
    using get_properties_falsy_is_unset [of example_rx example_db None "Some 175" None None] run
    by simp
  have "get_properties example_rx example_db (Some []) None (Some 175) (Some 0) (Some []) =
      get_properties example_rx example_db None None (Some 175) (Some 0) (Some [])"
    using get_properties_falsy_is_unset [of example_rx example_db _ "Some 175" "Some 0" "Some []" None]
    by blast
  also have "\<dots> = get_properties example_rx example_db None None (Some 175) None (Some [])"
    using get_properties_falsy_is_unset [of example_rx example_db None "Some 175" _ "Some []" None]
    by blast
  also have "\<dots> = get_properties example_rx example_db None None (Some 175) None None"
    using get_properties_falsy_is_unset [of example_rx example_db None "Some 175" None _ None]
    by blast
  finally have b: "get_properties example_rx example_db (Some []) None (Some 175) (Some 0) (Some []) =
      Inr [berlin, hamburg]"
    using run by simp
  from run a b show ?thesis by blast
qed

end
